theory Spec2Isabelle
  imports Main "HOL-Library.Word"
begin

unbundle bit_operations_syntax

section \<open>Machine integers\<close>

text \<open>
  \<open>uint8_t\<close> is an 8-bit word: \<open>\<le>\<close> and \<open><\<close> are the unsigned comparisons,
  \<open>push_bit\<close> and \<open>drop_bit\<close> are \<open><<\<close> and \<open>>>\<close> followed by the conversion back to
  \<open>uint8_t\<close>. A \<open>size_t\<close> is a natural number: the code never overflows one, and
  its conversion to \<open>uint8_t\<close> is \<open>word_of_nat\<close>, the reduction modulo 256 whatever the
  width of \<open>size_t\<close> on the target.
\<close>

type_synonym u8 = "8 word"

section \<open>MIDI\_MessageTypes.hpp\<close>

subsection \<open>enum class MIDIMessageType : uint8\_t\<close>

text \<open>
  \<open>getMessageType\<close> casts any masked header byte to the enumeration, so a value of the
  type is any byte, not only an enumerator; comparisons of a scoped enumeration compare
  the underlying bytes.
\<close>

type_synonym MIDIMessageType = u8

definition NOTE_OFF :: MIDIMessageType where "NOTE_OFF = 0x80"
definition NOTE_ON :: MIDIMessageType where "NOTE_ON = 0x90"
definition KEY_PRESSURE :: MIDIMessageType where "KEY_PRESSURE = 0xA0"
definition CC :: MIDIMessageType where "CC = 0xB0"
definition CONTROL_CHANGE :: MIDIMessageType where "CONTROL_CHANGE = CC"
definition PROGRAM_CHANGE :: MIDIMessageType where "PROGRAM_CHANGE = 0xC0"
definition CHANNEL_PRESSURE :: MIDIMessageType where "CHANNEL_PRESSURE = 0xD0"
definition PITCH_BEND :: MIDIMessageType where "PITCH_BEND = 0xE0"
definition SYSEX_START :: MIDIMessageType where "SYSEX_START = 0xF0"
definition SYSEX_END :: MIDIMessageType where "SYSEX_END = 0xF7"
definition TUNE_REQUEST :: MIDIMessageType where "TUNE_REQUEST = 0xF6"
definition TIMING_CLOCK :: MIDIMessageType where "TIMING_CLOCK = 0xF8"

lemmas MIDIMessageType_defs =
  NOTE_OFF_def NOTE_ON_def KEY_PRESSURE_def CC_def CONTROL_CHANGE_def PROGRAM_CHANGE_def
  CHANNEL_PRESSURE_def PITCH_BEND_def SYSEX_START_def SYSEX_END_def TUNE_REQUEST_def
  TIMING_CLOCK_def

subsection \<open>struct ChannelMessage\<close>

record ChannelMessage =
  header :: u8
  data1 :: u8
  data2 :: u8
  cable :: u8

text \<open>\<open>operator==\<close> and \<open>operator!=\<close>; \<open>this\<close> is the first argument.\<close>

definition ChannelMessage_eq :: "ChannelMessage \<Rightarrow> ChannelMessage \<Rightarrow> bool" where
  "ChannelMessage_eq this other =
     (header this = header other \<and> data1 this = data1 other \<and>
      data2 this = data2 other \<and> cable this = cable other)"

definition ChannelMessage_neq :: "ChannelMessage \<Rightarrow> ChannelMessage \<Rightarrow> bool" where
  "ChannelMessage_neq this other = (\<not> ChannelMessage_eq this other)"

definition getMessageType :: "ChannelMessage \<Rightarrow> MIDIMessageType" where
  "getMessageType this = header this AND 0xF0"

definition getData1 :: "ChannelMessage \<Rightarrow> u8" where
  "getData1 this = data1 this"

definition getData2 :: "ChannelMessage \<Rightarrow> u8" where
  "getData2 this = data2 this"

text \<open>The \<open>void\<close> member functions return the updated object.\<close>

definition setData1 :: "u8 \<Rightarrow> ChannelMessage \<Rightarrow> ChannelMessage" where
  "setData1 d this = this\<lparr>data1 := d\<rparr>"

text \<open>The overload \<open>void getData2(uint8_t data)\<close>, whose body is \<open>data2 = data\<close>.\<close>

definition getData2_uint8 :: "u8 \<Rightarrow> ChannelMessage \<Rightarrow> ChannelMessage" where
  "getData2_uint8 d this = this\<lparr>data2 := d\<rparr>"

definition hasTwoDataBytes :: "ChannelMessage \<Rightarrow> bool" where
  "hasTwoDataBytes this =
     (let type = getMessageType this in type \<le> CONTROL_CHANGE \<or> type = PITCH_BEND)"

definition hasValidHeader :: "ChannelMessage \<Rightarrow> bool" where
  "hasValidHeader this =
     (let type = getMessageType this in NOTE_OFF \<le> type \<and> type \<le> PITCH_BEND)"

subsection \<open>struct SysExMessage\<close>

text \<open>
  The pointer \<open>data\<close> is the list of the bytes stored from its address on (the empty
  list for \<open>nullptr\<close>); \<open>memcmp (a, b, n)\<close> compares the first \<open>n\<close> bytes of both.
\<close>

record SysExMessage =
  sx_data :: "u8 list"
  sx_length :: u8
  sx_cable :: u8

text \<open>\<open>SysExMessage(const uint8_t *data, size_t length, uint8_t cable)\<close>\<close>

definition SysExMessage_ctor :: "u8 list \<Rightarrow> nat \<Rightarrow> u8 \<Rightarrow> SysExMessage" where
  "SysExMessage_ctor d n c = \<lparr>sx_data = d, sx_length = word_of_nat n, sx_cable = c\<rparr>"

definition memcmp_eq :: "u8 list \<Rightarrow> u8 list \<Rightarrow> nat \<Rightarrow> bool" where
  "memcmp_eq a b n = (take n a = take n b)"

definition SysExMessage_eq :: "SysExMessage \<Rightarrow> SysExMessage \<Rightarrow> bool" where
  "SysExMessage_eq this other =
     (sx_length this = sx_length other \<and> sx_cable this = sx_cable other \<and>
      memcmp_eq (sx_data this) (sx_data other) (unat (sx_length this)))"

section \<open>USBMIDI\_Interface.hpp: sending\<close>

text \<open>
  A USB MIDI event packet, as \<open>midiEventPacket_t\<close> of the MIDIUSB library has it:
  byte 0 holds the cable number in its high nibble and the code index number in its low
  nibble, bytes 1 to 3 hold the MIDI bytes.
\<close>

record midiEventPacket =
  pkt_header :: u8
  byte1 :: u8
  byte2 :: u8
  byte3 :: u8

text \<open>
  The sending side of the USB connection: the packets handed to \<open>MidiUSB.sendMIDI\<close>
  so far, oldest first, and the number of calls of \<open>MidiUSB.flush\<close>.
\<close>

record MidiUSB_tx =
  sent :: "midiEventPacket list"
  flushed :: nat

text \<open>
  \<open>writeUSBPacket\<close> of the boards with native USB (\<open>USBCON\<close>): the packet
  \<open>{uint8_t((cn << 4) | cin), d0, d1, d2}\<close> is handed to \<open>MidiUSB.sendMIDI\<close>.
\<close>

definition usb_packet :: "u8 \<Rightarrow> u8 \<Rightarrow> u8 \<Rightarrow> u8 \<Rightarrow> u8 \<Rightarrow> midiEventPacket" where
  "usb_packet cn cin d0 d1 d2 =
     \<lparr>pkt_header = push_bit 4 cn OR cin, byte1 = d0, byte2 = d1, byte3 = d2\<rparr>"

definition writeUSBPacket :: "u8 \<Rightarrow> u8 \<Rightarrow> u8 \<Rightarrow> u8 \<Rightarrow> u8 \<Rightarrow> MidiUSB_tx \<Rightarrow> MidiUSB_tx" where
  "writeUSBPacket cn cin d0 d1 d2 s = s\<lparr>sent := sent s @ [usb_packet cn cin d0 d1 d2]\<rparr>"

definition flush :: "MidiUSB_tx \<Rightarrow> MidiUSB_tx" where
  "flush s = s\<lparr>flushed := Suc (flushed s)\<rparr>"

text \<open>
  The overloads of \<open>sendImpl\<close>: \<open>USBMIDI_sendImpl2 m c d1 d2 cn\<close> for a channel
  message with two data bytes, \<open>USBMIDI_sendImpl1 m c d1 cn\<close> for one data byte,
  \<open>USBMIDI_sendImpl_sysex data length cn\<close> for System Exclusive data.
\<close>

definition USBMIDI_sendImpl2 :: "u8 \<Rightarrow> u8 \<Rightarrow> u8 \<Rightarrow> u8 \<Rightarrow> u8 \<Rightarrow> MidiUSB_tx \<Rightarrow> MidiUSB_tx" where
  "USBMIDI_sendImpl2 m c d1 d2 cn s = flush (writeUSBPacket cn (drop_bit 4 m) (m OR c) d1 d2 s)"

definition USBMIDI_sendImpl1 :: "u8 \<Rightarrow> u8 \<Rightarrow> u8 \<Rightarrow> u8 \<Rightarrow> MidiUSB_tx \<Rightarrow> MidiUSB_tx" where
  "USBMIDI_sendImpl1 m c d1 cn s = USBMIDI_sendImpl2 m c d1 0 cn s"

text \<open>
  The \<open>while (length > 3)\<close> loop; it returns the advanced pointer, the remaining
  length and the connection.
\<close>

function sendImpl_sysex_loop :: "u8 list \<Rightarrow> nat \<Rightarrow> u8 \<Rightarrow> MidiUSB_tx \<Rightarrow> u8 list \<times> nat \<times> MidiUSB_tx" where
  "sendImpl_sysex_loop data len cn s =
     (if len > 3
      then sendImpl_sysex_loop (drop 3 data) (len - 3) cn
             (writeUSBPacket cn 0x4 (data ! 0) (data ! 1) (data ! 2) s)
      else (data, len, s))"
  by pat_completeness auto
termination
  by (relation "measure (\<lambda>(data, len, cn, s). len)") auto

declare sendImpl_sysex_loop.simps [simp del]

text \<open>The \<open>switch (length)\<close> after the loop.\<close>

definition sendImpl_sysex_switch :: "u8 list \<Rightarrow> nat \<Rightarrow> u8 \<Rightarrow> MidiUSB_tx \<Rightarrow> MidiUSB_tx" where
  "sendImpl_sysex_switch data len cn s =
     (if len = 3 then writeUSBPacket cn 0x7 (data ! 0) (data ! 1) (data ! 2) s
      else if len = 2 then writeUSBPacket cn 0x6 (data ! 0) (data ! 1) 0 s
      else if len = 1 then writeUSBPacket cn 0x5 (data ! 0) 0 0 s
      else s)"

text \<open>
  The pointer \<open>data\<close> is the list of the bytes stored from its address on. Reading
  beyond them is undefined behaviour: the result is \<open>None\<close> when \<open>length\<close> exceeds
  the bytes there are.
\<close>

definition USBMIDI_sendImpl_sysex :: "u8 list \<Rightarrow> nat \<Rightarrow> u8 \<Rightarrow> MidiUSB_tx \<Rightarrow> MidiUSB_tx option" where
  "USBMIDI_sendImpl_sysex data len cn s =
     (if len \<le> length data
      then (case sendImpl_sysex_loop data len cn s of
              (data', len', s') \<Rightarrow> Some (flush (sendImpl_sysex_switch data' len' cn s')))
      else None)"

text \<open>The code index number and the three MIDI bytes of a packet.\<close>

definition packet_cin :: "midiEventPacket \<Rightarrow> u8" where
  "packet_cin p = pkt_header p AND 0x0F"

definition packet_payload :: "midiEventPacket \<Rightarrow> u8 list" where
  "packet_payload p = [byte1 p, byte2 p, byte3 p]"

text \<open>
  The packets one System Exclusive send writes, as a list: the loop and the switch
  unrolled. It is used in the proofs only.
\<close>

function sysex_packets :: "u8 list \<Rightarrow> nat \<Rightarrow> u8 \<Rightarrow> midiEventPacket list" where
  "sysex_packets data len cn =
     (if len > 3
      then usb_packet cn 0x4 (data ! 0) (data ! 1) (data ! 2) #
           sysex_packets (drop 3 data) (len - 3) cn
      else if len = 3 then [usb_packet cn 0x7 (data ! 0) (data ! 1) (data ! 2)]
      else if len = 2 then [usb_packet cn 0x6 (data ! 0) (data ! 1) 0]
      else if len = 1 then [usb_packet cn 0x5 (data ! 0) 0 0]
      else [])"
  by pat_completeness auto
termination
  by (relation "measure (\<lambda>(data, len, cn). len)") auto

declare sysex_packets.simps [simp del]

section \<open>Reading: SerialMIDI\_Interface.hpp and USBMIDI\_Interface.hpp\<close>

text \<open>
  Modelled from the spec: the enumeration of parse events, which the parser's header
  declares (\<open>MIDIReadEvent\<close>, called \<open>MIDI_read_t\<close> in the USB interface), is not
  among the sources. The spec lists its values: no message yet, channel message
  complete, System Exclusive message complete, System Exclusive chunk (the buffer is
  full and the message continues), real-time message complete.
\<close>

datatype MIDIReadEvent =
  NO_MESSAGE | CHANNEL_MESSAGE | SYSEX_MESSAGE | SYSEX_CHUNK | REALTIME_MESSAGE

type_synonym MIDI_read_t = MIDIReadEvent

text \<open>
  \<open>StreamMIDI_Interface::read\<close>. The stream is the list of the bytes it has buffered:
  \<open>available()\<close> is its length and \<open>read()\<close> takes its head. The parser is not among
  the sources: \<open>parse\<close> is a parameter, a function from the parser's state and a byte
  to the event and the new state. The result is the event, the bytes left in the stream
  and the parser's state.
\<close>

fun StreamMIDI_read ::
  "('p \<Rightarrow> u8 \<Rightarrow> MIDIReadEvent \<times> 'p) \<Rightarrow> u8 list \<Rightarrow> 'p \<Rightarrow> MIDIReadEvent \<times> u8 list \<times> 'p" where
  "StreamMIDI_read parse [] parser = (NO_MESSAGE, [], parser)"
| "StreamMIDI_read parse (midiByte # stream) parser =
     (case parse parser midiByte of
        (parseResult, parser') \<Rightarrow>
          if parseResult \<noteq> NO_MESSAGE then (parseResult, stream, parser')
          else StreamMIDI_read parse stream parser')"

text \<open>
  \<open>USBMIDI_Interface::read\<close>, in the variant on the MIDIUSB library (the variant of
  the tests has the same loop). The \<open>k\<close>-th call of \<open>MidiUSB.read()\<close> returns the packet
  \<open>rx k\<close>, whose header is zero when no packet is pending; the state of the connection
  is the number of packets read so far. The loop counter \<open>i\<close> is a \<open>uint8_t\<close> and
  wraps around; \<open>bound\<close> is \<open>(SYSEX_BUFFER_SIZE + 2) / 3\<close>, where the constant
  \<open>SYSEX_BUFFER_SIZE\<close>, which is not among the sources, is a parameter. A loop that
  does not end is the value \<open>None\<close>.
\<close>

partial_function (option) USBMIDI_read_loop ::
  "nat \<Rightarrow> ('p \<Rightarrow> midiEventPacket \<Rightarrow> MIDI_read_t \<times> 'p) \<Rightarrow> (nat \<Rightarrow> midiEventPacket) \<Rightarrow>
   u8 \<Rightarrow> nat \<Rightarrow> 'p \<Rightarrow> (MIDI_read_t \<times> nat \<times> 'p) option" where
  "USBMIDI_read_loop bound parse rx i k parser =
     (if unat i < bound
      then (let midipacket = rx k in
            if pkt_header midipacket = 0 then Some (NO_MESSAGE, Suc k, parser)
            else (case parse parser midipacket of
                    (parseResult, parser') \<Rightarrow>
                      if parseResult \<noteq> NO_MESSAGE then Some (parseResult, Suc k, parser')
                      else USBMIDI_read_loop bound parse rx (i + 1) (Suc k) parser'))
      else Some (NO_MESSAGE, k, parser))"

definition USBMIDI_read ::
  "nat \<Rightarrow> ('p \<Rightarrow> midiEventPacket \<Rightarrow> MIDI_read_t \<times> 'p) \<Rightarrow> (nat \<Rightarrow> midiEventPacket) \<Rightarrow>
   nat \<Rightarrow> 'p \<Rightarrow> (MIDI_read_t \<times> nat \<times> 'p) option" where
  "USBMIDI_read SYSEX_BUFFER_SIZE parse rx k parser =
     USBMIDI_read_loop ((SYSEX_BUFFER_SIZE + 2) div 3) parse rx 0 k parser"

text \<open>
  The parser's state after the \<open>j\<close> packets \<open>rx k\<close>, ..., \<open>rx (k + j - 1)\<close>; it is
  used to say that the parser completes no message on them.
\<close>

fun parser_after ::
  "('p \<Rightarrow> midiEventPacket \<Rightarrow> MIDI_read_t \<times> 'p) \<Rightarrow> (nat \<Rightarrow> midiEventPacket) \<Rightarrow>
   nat \<Rightarrow> nat \<Rightarrow> 'p \<Rightarrow> 'p" where
  "parser_after parse rx k 0 parser = parser"
| "parser_after parse rx k (Suc j) parser =
     parser_after parse rx (Suc k) j (snd (parse parser (rx k)))"

text \<open>
  Concrete inputs of \<open>read\<close>: a parser that completes no message, a connection on
  which the first \<open>n\<close> packets read are pending, and one on which a packet is always
  pending.
\<close>

definition parse_nothing :: "unit \<Rightarrow> midiEventPacket \<Rightarrow> MIDI_read_t \<times> unit" where
  "parse_nothing parser packet = (NO_MESSAGE, parser)"

definition rx_pending :: "nat \<Rightarrow> nat \<Rightarrow> midiEventPacket" where
  "rx_pending n k =
     (if k < n then \<lparr>pkt_header = 0x04, byte1 = 0, byte2 = 0, byte3 = 0\<rparr>
      else \<lparr>pkt_header = 0, byte1 = 0, byte2 = 0, byte3 = 0\<rparr>)"

definition rx_always :: "nat \<Rightarrow> midiEventPacket" where
  "rx_always k = \<lparr>pkt_header = 0x04, byte1 = 0, byte2 = 0, byte3 = 0\<rparr>"

section \<open>SerialMIDI\_Interface.hpp: sending\<close>

text \<open>
  The two overloads of \<open>StreamMIDI_Interface::sendImpl\<close> for channel messages. The
  state is the list of the bytes written to the stream so far; the cable number \<open>cn\<close>
  is not used (\<open>(void)cn\<close>).
\<close>

definition StreamMIDI_sendImpl2 :: "u8 \<Rightarrow> u8 \<Rightarrow> u8 \<Rightarrow> u8 \<Rightarrow> u8 list \<Rightarrow> u8 list" where
  "StreamMIDI_sendImpl2 header' d1 d2 cn stream = stream @ [header'] @ [d1] @ [d2]"

definition StreamMIDI_sendImpl1 :: "u8 \<Rightarrow> u8 \<Rightarrow> u8 \<Rightarrow> u8 list \<Rightarrow> u8 list" where
  "StreamMIDI_sendImpl1 header' d1 cn stream = stream @ [header'] @ [d1]"

section \<open>Sending a ChannelMessage\<close>

text \<open>
  Modelled from the spec: the send operation that takes a \<open>ChannelMessage\<close> and calls
  \<open>sendImpl\<close> is declared in the base class of the interfaces, which is not among the
  sources. The spec has it serialize a channel message as status and data: the status
  byte and, by \<open>hasTwoDataBytes\<close>, one or two data bytes, through the overload of
  \<open>sendImpl\<close> with that many data bytes and the arguments it takes in each interface
  (the header on the serial interface).
\<close>

definition StreamMIDI_send :: "ChannelMessage \<Rightarrow> u8 list \<Rightarrow> u8 list" where
  "StreamMIDI_send msg stream =
     (if hasTwoDataBytes msg
      then StreamMIDI_sendImpl2 (header msg) (data1 msg) (data2 msg) (cable msg) stream
      else StreamMIDI_sendImpl1 (header msg) (data1 msg) (cable msg) stream)"

text \<open>
  Modelled from the spec: the same send operation on the USB interface, whose
  \<open>sendImpl\<close> takes the message type \<open>m\<close> (the high nibble of the header, in place)
  and the channel \<open>c\<close> (its low nibble) apart.
\<close>

definition USBMIDI_send :: "ChannelMessage \<Rightarrow> MidiUSB_tx \<Rightarrow> MidiUSB_tx" where
  "USBMIDI_send msg tx =
     (if hasTwoDataBytes msg
      then USBMIDI_sendImpl2 (header msg AND 0xF0) (header msg AND 0x0F) (data1 msg) (data2 msg)
             (cable msg) tx
      else USBMIDI_sendImpl1 (header msg AND 0xF0) (header msg AND 0x0F) (data1 msg)
             (cable msg) tx)"

section \<open>The parsers\<close>

subsection \<open>The byte-stream parser\<close>

text \<open>
  Modelled from the spec: \<open>SerialMIDI_Parser\<close> is not among the sources. The spec
  gives its states (idle, waiting for the first or the second data byte of a channel
  message, accumulating System Exclusive data), its running status register, which can
  be cleared, and the buffer of System Exclusive data of a fixed capacity. The parser
  holds the channel message it assembles, the last real-time byte, and the System
  Exclusive bytes it delivered last.
\<close>

datatype parser_state = Idle | ChannelMessage1 | ChannelMessage2 | SysExBody

record SerialMIDI_Parser =
  sp_state :: parser_state
  sp_running_status :: "u8 option"
  sp_midimsg :: ChannelMessage
  sp_rtmsg :: u8
  sp_sysexbuffer :: "u8 list"
  sp_sysexmsg :: "u8 list"

text \<open>
  Modelled from the spec: the parser after a reset has no running status and no System
  Exclusive data in progress. The fields the spec does not mention are zero; the state
  is used as a concrete input only.
\<close>

definition SerialMIDI_Parser_reset :: SerialMIDI_Parser where
  "SerialMIDI_Parser_reset =
     \<lparr>sp_state = Idle, sp_running_status = None,
      sp_midimsg = \<lparr>header = 0, data1 = 0, data2 = 0, cable = 0\<rparr>,
      sp_rtmsg = 0, sp_sysexbuffer = [], sp_sysexmsg = []\<rparr>"

text \<open>
  Modelled from the spec: a data byte (0x00 to 0x7F). While System Exclusive data is
  accumulated it is appended to the buffer, and a buffer that reaches its capacity is
  delivered as a chunk and started again. Otherwise, with a running status, it is the
  first data byte of a message of that status, or the second when the first has been
  received; the message is complete with the number of data bytes of its type, and the
  parser is idle again and keeps the running status. With no running status the byte
  is dropped.

  The byte stream carries no cable, and no second data byte for a type with one data
  byte, and the spec does not say what the message delivered holds in these two
  fields. They are left open: the parameter \<open>unsent\<close> gives them, the cable first and
  the data2 second, as any function of the parser's state.
\<close>

definition SerialMIDI_parse_data ::
  "(SerialMIDI_Parser \<Rightarrow> u8 \<times> u8) \<Rightarrow> nat \<Rightarrow> SerialMIDI_Parser \<Rightarrow> u8 \<Rightarrow>
   MIDIReadEvent \<times> SerialMIDI_Parser" where
  "SerialMIDI_parse_data unsent SYSEX_BUFFER_SIZE p b =
     (case sp_state p of
        SysExBody \<Rightarrow>
          (let buf = sp_sysexbuffer p @ [b] in
           if SYSEX_BUFFER_SIZE \<le> length buf
           then (SYSEX_CHUNK, p\<lparr>sp_sysexmsg := buf, sp_sysexbuffer := []\<rparr>)
           else (NO_MESSAGE, p\<lparr>sp_sysexbuffer := buf\<rparr>))
      | ChannelMessage2 \<Rightarrow>
          (CHANNEL_MESSAGE,
           p\<lparr>sp_state := Idle,
             sp_midimsg := \<lparr>header = header (sp_midimsg p), data1 = data1 (sp_midimsg p),
                            data2 = b, cable = fst (unsent p)\<rparr>\<rparr>)
      | _ \<Rightarrow>
          (case sp_running_status p of
             None \<Rightarrow> (NO_MESSAGE, p\<lparr>sp_state := Idle\<rparr>)
           | Some status \<Rightarrow>
               (let msg = (sp_midimsg p)\<lparr>header := status, data1 := b\<rparr> in
                if hasTwoDataBytes msg
                then (NO_MESSAGE, p\<lparr>sp_state := ChannelMessage2, sp_midimsg := msg\<rparr>)
                else (CHANNEL_MESSAGE,
                      p\<lparr>sp_state := Idle,
                        sp_midimsg := \<lparr>header = status, data1 = b, data2 = snd (unsent p),
                                       cable = fst (unsent p)\<rparr>\<rparr>))))"

text \<open>
  Modelled from the spec: one byte, by the rules of the spec in their order. A real-time
  byte (0xF8 to 0xFF) is reported and changes nothing else. A channel-voice status byte
  (0x80 to 0xEF) starts a message, becomes the running status and abandons System
  Exclusive data in progress. Tune Request (0xF6) is reported like a real-time byte and
  ends System Exclusive data in progress. System Exclusive start (0xF0) starts the
  accumulation and clears the running status; its end (0xF7) delivers what was
  accumulated. Any other byte is dropped and leaves the parser idle.
\<close>

definition SerialMIDI_parse ::
  "(SerialMIDI_Parser \<Rightarrow> u8 \<times> u8) \<Rightarrow> nat \<Rightarrow> SerialMIDI_Parser \<Rightarrow> u8 \<Rightarrow>
   MIDIReadEvent \<times> SerialMIDI_Parser" where
  "SerialMIDI_parse unsent SYSEX_BUFFER_SIZE p b =
     (if TIMING_CLOCK \<le> b then (REALTIME_MESSAGE, p\<lparr>sp_rtmsg := b\<rparr>)
      else if NOTE_OFF \<le> b \<and> b \<le> 0xEF
      then (NO_MESSAGE, p\<lparr>sp_state := ChannelMessage1, sp_running_status := Some b,
                           sp_midimsg := (sp_midimsg p)\<lparr>header := b\<rparr>, sp_sysexbuffer := []\<rparr>)
      else if b = TUNE_REQUEST
      then (REALTIME_MESSAGE, p\<lparr>sp_state := Idle, sp_running_status := None, sp_rtmsg := b,
                                 sp_sysexbuffer := []\<rparr>)
      else if b = SYSEX_START
      then (NO_MESSAGE, p\<lparr>sp_state := SysExBody, sp_running_status := None,
                           sp_sysexbuffer := []\<rparr>)
      else if b = SYSEX_END
      then (if sp_state p = SysExBody
            then (SYSEX_MESSAGE, p\<lparr>sp_state := Idle, sp_sysexmsg := sp_sysexbuffer p,
                                    sp_sysexbuffer := []\<rparr>)
            else (NO_MESSAGE, p\<lparr>sp_state := Idle\<rparr>))
      else if b \<le> 0x7F then SerialMIDI_parse_data unsent SYSEX_BUFFER_SIZE p b
      else (NO_MESSAGE, p\<lparr>sp_state := Idle\<rparr>))"

text \<open>
  Two of the parsers the parameter allows, to run the parser on concrete input: one that
  keeps in both fields what its message held before, one that clears both.
\<close>

definition SerialMIDI_unsent_kept :: "SerialMIDI_Parser \<Rightarrow> u8 \<times> u8" where
  "SerialMIDI_unsent_kept p = (cable (sp_midimsg p), data2 (sp_midimsg p))"

definition SerialMIDI_unsent_cleared :: "SerialMIDI_Parser \<Rightarrow> u8 \<times> u8" where
  "SerialMIDI_unsent_cleared p = (0, 0)"

text \<open>
  Sending a message on an empty stream and reading the stream back: the event, the bytes
  left, and the channel message the parser holds (what \<open>getChannelMessage\<close> returns).
\<close>

definition StreamMIDI_roundtrip ::
  "(SerialMIDI_Parser \<Rightarrow> u8 \<times> u8) \<Rightarrow> nat \<Rightarrow> ChannelMessage \<Rightarrow> SerialMIDI_Parser \<Rightarrow>
   MIDIReadEvent \<times> u8 list \<times> ChannelMessage" where
  "StreamMIDI_roundtrip unsent SYSEX_BUFFER_SIZE msg parser =
     (case StreamMIDI_read (SerialMIDI_parse unsent SYSEX_BUFFER_SIZE) (StreamMIDI_send msg [])
             parser of
        (event, stream, parser') \<Rightarrow> (event, stream, sp_midimsg parser'))"

subsection \<open>The packet parser\<close>

text \<open>
  Modelled from the spec: \<open>USBMIDI_Parser\<close> is not among the sources. Byte 0 of a
  packet holds the cable number and the code index number; a packet whose code index
  number is one of the channel-voice ones (0x8 to 0xE) is a single complete channel
  message: its three bytes are the header and the data bytes, and the cable is that of
  the packet. The spec leaves the handling of the other packets (System Exclusive,
  single bytes) to a reassembly it does not spell out: it is the parameter \<open>other\<close>,
  on the rest \<open>'x\<close> of the parser's state.
\<close>

definition USBMIDI_parse ::
  "('x \<Rightarrow> midiEventPacket \<Rightarrow> MIDI_read_t \<times> 'x) \<Rightarrow> ChannelMessage \<times> 'x \<Rightarrow> midiEventPacket \<Rightarrow>
   MIDI_read_t \<times> ChannelMessage \<times> 'x" where
  "USBMIDI_parse other p packet =
     (let cin = pkt_header packet AND 0x0F; cn = drop_bit 4 (pkt_header packet) in
      if 0x8 \<le> cin \<and> cin \<le> 0xE
      then (CHANNEL_MESSAGE,
            \<lparr>header = byte1 packet, data1 = byte2 packet, data2 = byte3 packet, cable = cn\<rparr>,
            snd p)
      else (case other (snd p) packet of (event, x) \<Rightarrow> (event, fst p, x)))"

text \<open>
  The packets a connection delivers when the packets of a list are pending: they come
  in order, and packets with a zero header after them.
\<close>

definition rx_of :: "midiEventPacket list \<Rightarrow> nat \<Rightarrow> midiEventPacket" where
  "rx_of packets k =
     (if k < length packets then packets ! k
      else \<lparr>pkt_header = 0, byte1 = 0, byte2 = 0, byte3 = 0\<rparr>)"

text \<open>
  Sending a message on a fresh connection and reading the packets back: the event, the
  number of packets read, and the channel message the parser holds.
\<close>

definition USBMIDI_roundtrip ::
  "nat \<Rightarrow> ('x \<Rightarrow> midiEventPacket \<Rightarrow> MIDI_read_t \<times> 'x) \<Rightarrow> ChannelMessage \<Rightarrow>
   ChannelMessage \<times> 'x \<Rightarrow> (MIDI_read_t \<times> nat \<times> ChannelMessage) option" where
  "USBMIDI_roundtrip SYSEX_BUFFER_SIZE other msg parser =
     (case USBMIDI_read SYSEX_BUFFER_SIZE (USBMIDI_parse other)
             (rx_of (sent (USBMIDI_send msg \<lparr>sent = [], flushed = 0\<rparr>))) 0 parser of
        None \<Rightarrow> None
      | Some (event, k, parser') \<Rightarrow> Some (event, k, fst parser'))"


text \<open>A handler of the other packets that ignores them.\<close>

definition USBMIDI_ignore_other :: "unit \<Rightarrow> midiEventPacket \<Rightarrow> MIDI_read_t \<times> unit" where
  "USBMIDI_ignore_other x packet = (NO_MESSAGE, x)"

section \<open>Properties of the message model\<close>

text \<open>The high nibble of a byte, masked in place, is one of sixteen values.\<close>

lemma hi_nibble_shift:
  fixes h :: u8
  shows "h AND 0xF0 = push_bit 4 (drop_bit 4 h)"
proof -
  have eq: "(0xF0 :: u8) = NOT (mask 4)"
    by (simp add: mask_eq_exp_minus_1)
  show ?thesis
    unfolding eq by (rule bit_word_eqI) (auto simp add: bit_simps)
qed

lemma nibble_cases:
  fixes d :: u8
  assumes "unat d < 16"
  shows "d \<in> {0, 1, 2, 3, 4, 5, 6, 7, 8, 9, 10, 11, 12, 13, 14, 15}"
proof -
  have "unat d \<in> {0, 1, 2, 3, 4, 5, 6, 7, 8, 9, 10, 11, 12, 13, 14, 15}"
    using assms by simp arith
  then have "word_of_nat (unat d) \<in>
      ((word_of_nat ` {0, 1, 2, 3, 4, 5, 6, 7, 8, 9, 10, 11, 12, 13, 14, 15}) :: u8 set)"
    by (rule imageI)
  then show ?thesis by simp
qed

lemma unat_hi_nibble_less:
  fixes h :: u8
  shows "unat (drop_bit 4 h) < 16"
  using unsigned_less [of h, where ?'a = nat]
  by (simp add: unat_div drop_bit_eq_div)

lemma hi_nibble_cases:
  fixes h :: u8
  shows "h AND 0xF0 \<in> {0x00, 0x10, 0x20, 0x30, 0x40, 0x50, 0x60, 0x70,
                      0x80, 0x90, 0xA0, 0xB0, 0xC0, 0xD0, 0xE0, 0xF0}"
  using nibble_cases [OF unat_hi_nibble_less [of h]]
  unfolding hi_nibble_shift by (elim insertE emptyE) simp_all

lemma message_type_valid_iff:
  "((0x80 :: u8) \<le> h AND 0xF0 \<and> h AND 0xF0 \<le> 0xE0) =
     (h AND 0xF0 \<in> {0x80, 0x90, 0xA0, 0xB0, 0xC0, 0xD0, 0xE0})"
  using hi_nibble_cases [of h] by (elim insertE emptyE) simp_all

text \<open>
  C6. \<open>hasValidHeader\<close> is true exactly when \<open>header & 0xF0\<close> is one of the seven
  channel-voice types 0x80, 0x90, 0xA0, 0xB0, 0xC0, 0xD0, 0xE0.
\<close>

theorem hasValidHeader_iff:
  "hasValidHeader m =
     (header m AND 0xF0 \<in>
        {NOTE_OFF, NOTE_ON, KEY_PRESSURE, CONTROL_CHANGE, PROGRAM_CHANGE,
         CHANNEL_PRESSURE, PITCH_BEND})"
  using message_type_valid_iff [of "header m"]
  by (simp add: hasValidHeader_def getMessageType_def MIDIMessageType_defs Let_def)

text \<open>
  C3. For a message whose header is a valid channel-voice header, \<open>hasTwoDataBytes\<close>
  is true exactly when the type is Note Off, Note On, Key Pressure, Control Change or
  Pitch Bend; it is false for Program Change and for Channel Pressure.
\<close>

theorem hasTwoDataBytes_valid:
  assumes "header m AND 0xF0 \<in>
     {NOTE_OFF, NOTE_ON, KEY_PRESSURE, CONTROL_CHANGE, PROGRAM_CHANGE,
      CHANNEL_PRESSURE, PITCH_BEND}"
  shows "hasTwoDataBytes m =
           (getMessageType m \<in> {NOTE_OFF, NOTE_ON, KEY_PRESSURE, CONTROL_CHANGE, PITCH_BEND}) \<and>
         hasTwoDataBytes m = (getMessageType m \<notin> {PROGRAM_CHANGE, CHANNEL_PRESSURE})"
proof -
  from assms have t:
    "header m AND 0xF0 = 0x80 \<or> header m AND 0xF0 = 0x90 \<or> header m AND 0xF0 = 0xA0 \<or>
     header m AND 0xF0 = 0xB0 \<or> header m AND 0xF0 = 0xC0 \<or> header m AND 0xF0 = 0xD0 \<or>
     header m AND 0xF0 = 0xE0"
    by (simp add: MIDIMessageType_defs)
  show ?thesis
    using t unfolding hasTwoDataBytes_def getMessageType_def MIDIMessageType_defs Let_def
    by (elim disjE) simp_all
qed

theorem hasTwoDataBytes_valid_witness:
  "hasTwoDataBytes \<lparr>header = 0x93, data1 = 60, data2 = 100, cable = 0\<rparr> \<and>
   hasTwoDataBytes \<lparr>header = 0xE5, data1 = 0, data2 = 64, cable = 0\<rparr> \<and>
   \<not> hasTwoDataBytes \<lparr>header = 0xC7, data1 = 12, data2 = 0, cable = 0\<rparr> \<and>
   \<not> hasTwoDataBytes \<lparr>header = 0xD0, data1 = 99, data2 = 0, cable = 2\<rparr>"
  using hasTwoDataBytes_valid [of "\<lparr>header = 0x93, data1 = 60, data2 = 100, cable = 0\<rparr>"]
    hasTwoDataBytes_valid [of "\<lparr>header = 0xE5, data1 = 0, data2 = 64, cable = 0\<rparr>"]
    hasTwoDataBytes_valid [of "\<lparr>header = 0xC7, data1 = 12, data2 = 0, cable = 0\<rparr>"]
    hasTwoDataBytes_valid [of "\<lparr>header = 0xD0, data1 = 99, data2 = 0, cable = 2\<rparr>"]
  by (simp add: getMessageType_def MIDIMessageType_defs)

text \<open>
  C7. \<open>a == b\<close> is true exactly when the four fields header, data1, data2 and cable
  are pairwise equal, that is when the two messages are the same value; \<open>a != b\<close> is
  its negation.
\<close>

theorem ChannelMessage_eq_structural:
  "ChannelMessage_eq a b =
     (header a = header b \<and> data1 a = data1 b \<and> data2 a = data2 b \<and> cable a = cable b) \<and>
   ChannelMessage_eq a b = (a = b) \<and>
   ChannelMessage_neq a b = (\<not> ChannelMessage_eq a b)"
  by (auto simp add: ChannelMessage_eq_def ChannelMessage_neq_def)

text \<open>
  C10. The one-parameter overload \<open>getData2(uint8_t data)\<close> stores its argument in
  data2 and leaves header, data1 and cable as they were: what the zero-parameter
  \<open>getData2\<close> returns afterwards is the argument.
\<close>

theorem getData2_uint8_mutates:
  "data2 (getData2_uint8 d m) = d \<and>
   getData2 (getData2_uint8 d m) = d \<and>
   header (getData2_uint8 d m) = header m \<and>
   data1 (getData2_uint8 d m) = data1 m \<and>
   cable (getData2_uint8 d m) = cable m"
  by (simp add: getData2_uint8_def getData2_def)

text \<open>
  C9. The constructor stores its \<open>size_t\<close> length in the 8-bit field: the stored
  length is the argument modulo 256, which differs from the argument from 256 on; and
  \<open>operator==\<close> compares the stored lengths and that many bytes of the data.
\<close>

theorem SysExMessage_length_truncated:
  "unat (sx_length (SysExMessage_ctor d n c)) = n mod 256 \<and>
   (256 \<le> n \<longrightarrow> unat (sx_length (SysExMessage_ctor d n c)) \<noteq> n) \<and>
   SysExMessage_eq (SysExMessage_ctor d n c) (SysExMessage_ctor d' n' c') =
     (n mod 256 = n' mod 256 \<and> c = c' \<and> take (n mod 256) d = take (n mod 256) d')"
proof -
  have len: "unat (word_of_nat k :: u8) = k mod 256" for k
    by (simp add: unat_of_nat)
  have eq: "((word_of_nat n :: u8) = word_of_nat n') = (n mod 256 = n' mod 256)"
    by (simp add: word_of_nat_eq_iff take_bit_eq_mod)
  have "256 \<le> n \<Longrightarrow> n mod 256 \<noteq> n"
    using mod_less_divisor [of 256 n] by linarith
  then show ?thesis
    by (auto simp add: SysExMessage_ctor_def SysExMessage_eq_def memcmp_eq_def len eq)
qed

theorem SysExMessage_length_truncated_witness:
  "unat (sx_length (SysExMessage_ctor (replicate 300 1) 300 0)) = 44 \<and>
   SysExMessage_eq (SysExMessage_ctor (replicate 256 1) 256 0)
                   (SysExMessage_ctor (replicate 256 2) 256 0)"
  using SysExMessage_length_truncated [of "replicate 300 1" 300 0 "replicate 300 1" 300 0]
    SysExMessage_length_truncated [of "replicate 256 1" 256 0 "replicate 256 2" 256 0]
  by simp

section \<open>Properties of sending over USB\<close>

lemma low_nibble_of_header:
  fixes cn k :: u8
  shows "(push_bit 4 cn OR k) AND 0x0F = take_bit 4 k"
proof -
  have eq: "(0x0F :: u8) = mask 4"
    by (simp add: mask_eq_exp_minus_1)
  show ?thesis
    unfolding eq by (rule bit_word_eqI) (auto simp add: bit_simps)
qed

lemma take_bit_hi_nibble:
  fixes m :: u8
  shows "take_bit 4 (drop_bit 4 m) = drop_bit 4 m"
  by (rule bit_word_eqI) (auto simp add: bit_simps dest: bit_imp_le_length)

lemma drop_bit_channel:
  fixes c :: u8
  assumes "c < 16"
  shows "drop_bit 4 c = 0"
  using assms
  by (simp add: drop_bit_eq_div word_less_nat_alt word_eq_iff_unsigned [where ?'a = nat] unat_div)

text \<open>
  C5. A channel-message send over USB with message type \<open>m\<close>, channel \<open>c\<close>, data
  bytes \<open>d1\<close>, \<open>d2\<close> and cable \<open>cn\<close> writes exactly one packet (and flushes once):
  byte 0 is \<open>(cn << 4) | (m >> 4)\<close>, byte 1 is \<open>m | c\<close>, byte 2 is \<open>d1\<close>, byte 3 is
  \<open>d2\<close>; the one-data-byte overload writes the same packet with byte 3 zero. For a
  channel below 16 the code index number of the packet is the high nibble of its status
  byte.
\<close>

theorem USBMIDI_sendImpl_channel_packet:
  "USBMIDI_sendImpl2 m c d1 d2 cn s =
     s\<lparr>sent := sent s @
            [\<lparr>pkt_header = push_bit 4 cn OR drop_bit 4 m, byte1 = m OR c,
              byte2 = d1, byte3 = d2\<rparr>],
       flushed := Suc (flushed s)\<rparr> \<and>
   USBMIDI_sendImpl1 m c d1 cn s =
     s\<lparr>sent := sent s @
            [\<lparr>pkt_header = push_bit 4 cn OR drop_bit 4 m, byte1 = m OR c,
              byte2 = d1, byte3 = 0\<rparr>],
       flushed := Suc (flushed s)\<rparr> \<and>
   (c < 16 \<longrightarrow>
      packet_cin (last (sent (USBMIDI_sendImpl2 m c d1 d2 cn s))) = drop_bit 4 (m OR c) \<and>
      packet_cin (last (sent (USBMIDI_sendImpl1 m c d1 cn s))) = drop_bit 4 (m OR c))"
  by (simp add: USBMIDI_sendImpl1_def USBMIDI_sendImpl2_def flush_def writeUSBPacket_def
      usb_packet_def packet_cin_def low_nibble_of_header take_bit_hi_nibble drop_bit_channel)

theorem USBMIDI_sendImpl_channel_packet_witness:
  "(3 :: u8) < 16 \<and>
   USBMIDI_sendImpl2 0x90 3 60 100 1 \<lparr>sent = [], flushed = 0\<rparr> =
     \<lparr>sent = [\<lparr>pkt_header = 0x19, byte1 = 0x93, byte2 = 60, byte3 = 100\<rparr>], flushed = 1\<rparr> \<and>
   USBMIDI_sendImpl1 0xC0 3 60 1 \<lparr>sent = [], flushed = 0\<rparr> =
     \<lparr>sent = [\<lparr>pkt_header = 0x1C, byte1 = 0xC3, byte2 = 60, byte3 = 0\<rparr>], flushed = 1\<rparr> \<and>
   packet_cin (last (sent (USBMIDI_sendImpl2 0x90 3 60 100 1 \<lparr>sent = [], flushed = 0\<rparr>))) = 9"
  using USBMIDI_sendImpl_channel_packet [where m = "0x90" and c = 3 and ?d1.0 = 60 and ?d2.0 = 100
      and cn = 1 and s = "\<lparr>sent = [], flushed = 0\<rparr>"]
    USBMIDI_sendImpl_channel_packet [where m = "0xC0" and c = 3 and ?d1.0 = 60 and ?d2.0 = 0
      and cn = 1 and s = "\<lparr>sent = [], flushed = 0\<rparr>"]
  by (simp add: drop_bit_eq_div packet_cin_def)

lemma sysex_loop_sent:
  "(case sendImpl_sysex_loop data len cn s of
      (data', len', s') \<Rightarrow> sendImpl_sysex_switch data' len' cn s') =
   s\<lparr>sent := sent s @ sysex_packets data len cn\<rparr>"
proof (induction data len cn s rule: sendImpl_sysex_loop.induct)
  case (1 data len cn s)
  show ?case
  proof (cases "len > 3")
    case True
    then show ?thesis
      using "1.IH" [OF True]
      by (subst sendImpl_sysex_loop.simps, subst sysex_packets.simps)
         (simp add: writeUSBPacket_def)
  next
    case False
    then show ?thesis
      by (subst sendImpl_sysex_loop.simps, subst sysex_packets.simps)
         (simp add: sendImpl_sysex_switch_def writeUSBPacket_def)
  qed
qed

lemma length_sysex_packets: "length (sysex_packets data len cn) = (len + 2) div 3"
proof (induction data len cn rule: sysex_packets.induct)
  case (1 data len cn)
  show ?case
  proof (cases "len > 3")
    case True
    have "Suc ((len - 3 + 2) div 3) = (len + 2) div 3" using True by arith
    then show ?thesis
      using "1.IH" [OF True] True by (subst sysex_packets.simps) simp
  next
    case False
    then have "len = 0 \<or> len = 1 \<or> len = 2 \<or> len = 3" by arith
    then show ?thesis
      by (subst sysex_packets.simps) auto
  qed
qed

lemma nth_sysex_packets:
  "i + 1 < length (sysex_packets data len cn) \<Longrightarrow> len \<le> length data \<Longrightarrow>
   sysex_packets data len cn ! i =
     usb_packet cn 0x4 (data ! (3 * i)) (data ! (3 * i + 1)) (data ! (3 * i + 2))"
proof (induction data len cn arbitrary: i rule: sysex_packets.induct)
  case (1 data len cn)
  show ?case
  proof (cases "len > 3")
    case True
    note unfold = sysex_packets.simps [of data len cn]
    show ?thesis
    proof (cases i)
      case 0
      then show ?thesis using True by (simp add: unfold numeral_2_eq_2)
    next
      case (Suc j)
      have "j + 1 < length (sysex_packets (drop 3 data) (len - 3) cn)"
        using "1.prems"(1) True Suc by (simp add: unfold)
      moreover have "len - 3 \<le> length (drop 3 data)"
        using "1.prems"(2) by simp
      ultimately have "sysex_packets (drop 3 data) (len - 3) cn ! j =
          usb_packet cn 0x4 (drop 3 data ! (3 * j)) (drop 3 data ! (3 * j + 1))
            (drop 3 data ! (3 * j + 2))"
        using "1.IH" [OF True] by blast
      moreover have "3 * Suc j = 3 + 3 * j" by simp
      ultimately show ?thesis
        using True Suc "1.prems"(2) by (simp add: unfold add.commute add.left_commute)
    qed
  next
    case False
    then have "length (sysex_packets data len cn) \<le> 1"
      by (simp add: length_sysex_packets)
    then show ?thesis using "1.prems"(1) by simp
  qed
qed

lemma last_sysex_packets:
  "1 \<le> len \<Longrightarrow> len \<le> length data \<Longrightarrow>
   last (sysex_packets data len cn) =
     (if len mod 3 = 0
      then usb_packet cn 0x7 (data ! (len - 3)) (data ! (len - 2)) (data ! (len - 1))
      else if len mod 3 = 2 then usb_packet cn 0x6 (data ! (len - 2)) (data ! (len - 1)) 0
      else usb_packet cn 0x5 (data ! (len - 1)) 0 0)"
proof (induction data len cn rule: sysex_packets.induct)
  case (1 data len cn)
  note unfold = sysex_packets.simps [of data len cn]
  show ?case
  proof (cases "len > 3")
    case True
    have ne: "sysex_packets (drop 3 data) (len - 3) cn \<noteq> []"
      using True length_sysex_packets [of "drop 3 data" "len - 3" cn] by auto
    have m: "(len - 3) mod 3 = len mod 3"
      using True by (simp add: mod_if)
    have idx: "drop 3 data ! (len - 3 - k) = data ! (len - k)" if "k \<le> len - 3" for k
    proof -
      have "3 + (len - 3 - k) = len - k" using that True by arith
      then show ?thesis using "1.prems"(2) True by simp
    qed
    have "last (sysex_packets data len cn) = last (sysex_packets (drop 3 data) (len - 3) cn)"
      using True ne by (simp add: unfold)
    also have "\<dots> =
      (if len mod 3 = 0
       then usb_packet cn 0x7 (data ! (len - 3)) (data ! (len - 2)) (data ! (len - 1))
       else if len mod 3 = 2 then usb_packet cn 0x6 (data ! (len - 2)) (data ! (len - 1)) 0
       else usb_packet cn 0x5 (data ! (len - 1)) 0 0)"
    proof -
      have ih: "last (sysex_packets (drop 3 data) (len - 3) cn) =
        (if len mod 3 = 0
         then usb_packet cn 0x7 (drop 3 data ! (len - 3 - 3)) (drop 3 data ! (len - 3 - 2))
                (drop 3 data ! (len - 3 - 1))
         else if len mod 3 = 2
         then usb_packet cn 0x6 (drop 3 data ! (len - 3 - 2)) (drop 3 data ! (len - 3 - 1)) 0
         else usb_packet cn 0x5 (drop 3 data ! (len - 3 - 1)) 0 0)"
        using "1.IH" [OF True] True "1.prems"(2) by (simp add: m)
      have k1: "1 \<le> len - 3" using True by arith
      have k2: "len mod 3 \<noteq> 1 \<Longrightarrow> 2 \<le> len - 3" using True by presburger
      have k3: "len mod 3 = 0 \<Longrightarrow> 3 \<le> len - 3" using True by presburger
      show ?thesis
      proof (cases "len mod 3 = 0")
        case True
        then show ?thesis using ih idx [OF k1] idx [OF k2] idx [OF k3] by simp
      next
        case False
        note nz = this
        show ?thesis
        proof (cases "len mod 3 = 2")
          case True
          then show ?thesis using ih nz idx [OF k1] idx [OF k2] by simp
        next
          case False
          then show ?thesis using ih nz idx [OF k1] by simp
        qed
      qed
    qed
    finally show ?thesis .
  next
    case False
    then have "len = 1 \<or> len = 2 \<or> len = 3" using "1.prems"(1) by arith
    then show ?thesis
      by (auto simp add: unfold numeral_2_eq_2)
  qed
qed

lemma take_1_nth: "1 \<le> length xs \<Longrightarrow> take 1 xs = [xs ! 0]"
  by (cases xs) simp_all

lemma take_2_nth: "2 \<le> length xs \<Longrightarrow> take 2 xs = [xs ! 0, xs ! 1]"
  by (cases xs, simp, rename_tac a as, case_tac as, simp_all add: numeral_2_eq_2)

lemma take_3_nth: "3 \<le> length xs \<Longrightarrow> take 3 xs = [xs ! 0, xs ! 1, xs ! 2]"
  by (cases xs, simp, rename_tac a as, case_tac as, simp, rename_tac b bs, case_tac bs,
      simp_all add: numeral_3_eq_3 numeral_2_eq_2)

lemma payload_sysex_packets:
  "len \<le> length data \<Longrightarrow>
   take len (concat (map packet_payload (sysex_packets data len cn))) = take len data"
proof (induction data len cn rule: sysex_packets.induct)
  case (1 data len cn)
  note unfold = sysex_packets.simps [of data len cn]
  show ?case
  proof (cases "len > 3")
    case True
    have three: "[data ! 0, data ! 1, data ! 2] = take 3 data"
      using True "1.prems" by (simp add: take_3_nth)
    have "take len (concat (map packet_payload (sysex_packets data len cn))) =
          take 3 data @
          take (len - 3) (concat (map packet_payload (sysex_packets (drop 3 data) (len - 3) cn)))"
      using True "1.prems" three
      by (simp add: unfold packet_payload_def usb_packet_def)
    also have "\<dots> = take 3 data @ take (len - 3) (drop 3 data)"
      using "1.IH" [OF True] "1.prems" by simp
    also have "\<dots> = take len data"
      using True by (metis le_add_diff_inverse less_imp_le_nat take_add)
    finally show ?thesis .
  next
    case False
    then have "len = 0 \<or> len = 1 \<or> len = 2 \<or> len = 3" by arith
    then show ?thesis
      using "1.prems" take_1_nth [of data] take_2_nth [of data] take_3_nth [of data]
      by (subst unfold, elim disjE) (simp_all add: packet_payload_def usb_packet_def)
  qed
qed

text \<open>
  C2. A System Exclusive send of \<open>n\<close> bytes on cable \<open>cn\<close> writes \<open>(n + 2) div 3\<close>
  packets, the ceiling of \<open>n / 3\<close>, and flushes once. Every packet but the last has
  code index number 0x4 and the next three bytes of the data. For \<open>n \<ge> 1\<close> the last
  packet has code index number 0x7 and three bytes when \<open>n mod 3 = 0\<close>, 0x6 and two
  bytes followed by a zero when \<open>n mod 3 = 2\<close>, 0x5 and one byte followed by two
  zeros when \<open>n mod 3 = 1\<close>. The bytes of all packets, concatenated and cut to \<open>n\<close>,
  are the data. For \<open>n = 0\<close> no packet is written.
\<close>

theorem USBMIDI_sendImpl_sysex_packets:
  assumes "n \<le> length data"
  shows "\<exists>ps. USBMIDI_sendImpl_sysex data n cn s =
                Some (s\<lparr>sent := sent s @ ps, flushed := Suc (flushed s)\<rparr>) \<and>
     length ps = (n + 2) div 3 \<and>
     (\<forall>i. i + 1 < length ps \<longrightarrow>
        ps ! i = usb_packet cn 0x4 (data ! (3 * i)) (data ! (3 * i + 1)) (data ! (3 * i + 2)) \<and>
        packet_cin (ps ! i) = 0x4) \<and>
     (1 \<le> n \<longrightarrow>
        last ps =
          (if n mod 3 = 0
           then usb_packet cn 0x7 (data ! (n - 3)) (data ! (n - 2)) (data ! (n - 1))
           else if n mod 3 = 2 then usb_packet cn 0x6 (data ! (n - 2)) (data ! (n - 1)) 0
           else usb_packet cn 0x5 (data ! (n - 1)) 0 0) \<and>
        packet_cin (last ps) = (if n mod 3 = 0 then 0x7 else if n mod 3 = 2 then 0x6 else 0x5)) \<and>
     take n (concat (map packet_payload ps)) = take n data \<and>
     (n = 0 \<longrightarrow> ps = [])"
proof -
  let ?ps = "sysex_packets data n cn"
  have cin: "packet_cin (usb_packet cn k a b c) = take_bit 4 k" for k a b c
    by (simp add: packet_cin_def usb_packet_def low_nibble_of_header)
  have run: "USBMIDI_sendImpl_sysex data n cn s =
      Some (s\<lparr>sent := sent s @ ?ps, flushed := Suc (flushed s)\<rparr>)"
    using assms sysex_loop_sent [where data = data and len = n and cn = cn and s = s]
    by (simp add: USBMIDI_sendImpl_sysex_def flush_def split: prod.splits)
  have len: "length ?ps = (n + 2) div 3"
    by (rule length_sysex_packets)
  have nth: "\<forall>i. i + 1 < length ?ps \<longrightarrow>
        ?ps ! i = usb_packet cn 0x4 (data ! (3 * i)) (data ! (3 * i + 1)) (data ! (3 * i + 2)) \<and>
        packet_cin (?ps ! i) = 0x4"
    using nth_sysex_packets [OF _ assms, where cn = cn] by (simp add: cin)
  have lst: "1 \<le> n \<longrightarrow>
        last ?ps =
          (if n mod 3 = 0
           then usb_packet cn 0x7 (data ! (n - 3)) (data ! (n - 2)) (data ! (n - 1))
           else if n mod 3 = 2 then usb_packet cn 0x6 (data ! (n - 2)) (data ! (n - 1)) 0
           else usb_packet cn 0x5 (data ! (n - 1)) 0 0) \<and>
        packet_cin (last ?ps) = (if n mod 3 = 0 then 0x7 else if n mod 3 = 2 then 0x6 else 0x5)"
    using last_sysex_packets [OF _ assms, where cn = cn] by (simp add: cin)
  have pay: "take n (concat (map packet_payload ?ps)) = take n data"
    by (rule payload_sysex_packets [OF assms])
  have emp: "n = 0 \<longrightarrow> ?ps = []"
    using len by auto
  from run len nth lst pay emp show ?thesis by blast
qed

theorem USBMIDI_sendImpl_sysex_packets_witness:
  "7 \<le> length [0xF0, 1, 2, 3, 4, 5, 0xF7 :: u8] \<and>
   USBMIDI_sendImpl_sysex [0xF0, 1, 2, 3, 4, 5, 0xF7] 7 2 \<lparr>sent = [], flushed = 0\<rparr> =
     Some \<lparr>sent = [\<lparr>pkt_header = 0x24, byte1 = 0xF0, byte2 = 1, byte3 = 2\<rparr>,
                  \<lparr>pkt_header = 0x24, byte1 = 3, byte2 = 4, byte3 = 5\<rparr>,
                  \<lparr>pkt_header = 0x25, byte1 = 0xF7, byte2 = 0, byte3 = 0\<rparr>],
           flushed = 1\<rparr>"
proof -
  have h: "7 \<le> length [0xF0, 1, 2, 3, 4, 5, 0xF7 :: u8]" by simp
  obtain ps where
    run: "USBMIDI_sendImpl_sysex [0xF0, 1, 2, 3, 4, 5, 0xF7] 7 2 \<lparr>sent = [], flushed = 0\<rparr> =
            Some \<lparr>sent = ps, flushed = 1\<rparr>"
    and len: "length ps = 3"
    and nth: "\<forall>i. i + 1 < length ps \<longrightarrow>
        ps ! i = usb_packet 2 0x4 ([0xF0, 1, 2, 3, 4, 5, 0xF7] ! (3 * i))
                   ([0xF0, 1, 2, 3, 4, 5, 0xF7] ! (3 * i + 1)) ([0xF0, 1, 2, 3, 4, 5, 0xF7] ! (3 * i + 2))"
    and lst: "last ps = usb_packet 2 0x5 0xF7 0 0"
    using USBMIDI_sendImpl_sysex_packets [OF h, where cn = 2 and s = "\<lparr>sent = [], flushed = 0\<rparr>"]
    by auto
  from len obtain a b c where ps: "ps = [a, b, c]"
    by (auto simp add: length_Suc_conv numeral_3_eq_3)
  have "a = usb_packet 2 0x4 0xF0 1 2" using nth [rule_format, of 0] ps by simp
  moreover have "b = usb_packet 2 0x4 3 4 5" using nth [rule_format, of 1] ps by simp
  moreover have "c = usb_packet 2 0x5 0xF7 0 0" using lst ps by simp
  ultimately show ?thesis using run ps by (simp add: usb_packet_def)
qed

section \<open>Properties of reading\<close>

text \<open>
  C4. With no input (the stream has no byte available, or the next USB packet has a
  zero header) \<open>read\<close> returns \<open>NO_MESSAGE\<close> at once and the parser's state is as it
  was: the result is the same whatever the function \<open>parse\<close> is, so the parser is not
  called.
\<close>

theorem read_no_input:
  "StreamMIDI_read parse [] parser = (NO_MESSAGE, [], parser) \<and>
   (pkt_header (rx k) = 0 \<longrightarrow>
      USBMIDI_read SYSEX_BUFFER_SIZE usb_parse rx k usb_parser =
        Some (NO_MESSAGE, if 0 < (SYSEX_BUFFER_SIZE + 2) div 3 then Suc k else k, usb_parser))"
  by (simp add: USBMIDI_read_def USBMIDI_read_loop.simps [of _ _ _ 0])

theorem read_no_input_witness:
  "pkt_header ((\<lambda>k. \<lparr>pkt_header = 0, byte1 = 0, byte2 = 0, byte3 = 0\<rparr>) (5 :: nat)) = 0 \<and>
   USBMIDI_read 128 (\<lambda>(p :: nat) pkt. (CHANNEL_MESSAGE, Suc p))
     (\<lambda>k. \<lparr>pkt_header = 0, byte1 = 0, byte2 = 0, byte3 = 0\<rparr>) 5 7 = Some (NO_MESSAGE, 6, 7)"
  using read_no_input [where rx = "\<lambda>k. \<lparr>pkt_header = 0, byte1 = 0, byte2 = 0, byte3 = 0\<rparr>"
      and k = 5 and SYSEX_BUFFER_SIZE = 128
      and usb_parse = "\<lambda>(p :: nat) pkt. (CHANNEL_MESSAGE, Suc p)" and usb_parser = 7]
  by simp


lemma unat_succ_u8:
  fixes i :: u8
  assumes "unat i < 255"
  shows "unat (i + 1) = Suc (unat i)"
  using assms by (simp add: unat_word_ariths)

lemma read_loop_step:
  assumes "unat i < bound" "pkt_header (rx k) \<noteq> 0" "parse parser (rx k) = (NO_MESSAGE, parser')"
  shows "USBMIDI_read_loop bound parse rx i k parser =
         USBMIDI_read_loop bound parse rx (i + 1) (Suc k) parser'"
  using assms by (subst USBMIDI_read_loop.simps) (simp add: Let_def)

lemma read_loop_message:
  assumes "unat i < bound" "pkt_header (rx k) \<noteq> 0" "parse parser (rx k) = (r, parser')"
    "r \<noteq> NO_MESSAGE"
  shows "USBMIDI_read_loop bound parse rx i k parser = Some (r, Suc k, parser')"
  using assms by (subst USBMIDI_read_loop.simps) (simp add: Let_def)

lemma read_loop_empty:
  assumes "unat i < bound" "pkt_header (rx k) = 0"
  shows "USBMIDI_read_loop bound parse rx i k parser = Some (NO_MESSAGE, Suc k, parser)"
  using assms by (subst USBMIDI_read_loop.simps) (simp add: Let_def)

lemma read_loop_done:
  assumes "\<not> unat i < bound"
  shows "USBMIDI_read_loop bound parse rx i k parser = Some (NO_MESSAGE, k, parser)"
  using assms by (subst USBMIDI_read_loop.simps) simp
lemma read_loop_returns:
  assumes "bound \<le> 255"
  shows "bound - unat i = n \<Longrightarrow>
    \<exists>r k' parser'. USBMIDI_read_loop bound parse rx i k parser = Some (r, k', parser') \<and>
       k' \<le> k + n"
proof (induction n arbitrary: i k parser)
  case 0
  then have "\<not> unat i < bound" by simp
  then show ?case by (simp add: read_loop_done)
next
  case (Suc n)
  then have lt: "unat i < bound" by simp
  then have "unat i < 255" using assms by simp
  then have b: "bound - unat (i + 1) = n"
    using Suc.prems by (simp add: unat_succ_u8)
  obtain r parser' where p: "parse parser (rx k) = (r, parser')"
    by (cases "parse parser (rx k)")
  show ?case
  proof (cases "pkt_header (rx k) = 0")
    case True
    then show ?thesis using lt by (simp add: read_loop_empty)
  next
    case False
    show ?thesis
    proof (cases "r = NO_MESSAGE")
      case True
      from Suc.IH [OF b, of "Suc k" parser'] obtain r' k' parser'' where
        "USBMIDI_read_loop bound parse rx (i + 1) (Suc k) parser' = Some (r', k', parser'')"
        "k' \<le> Suc k + n"
        by blast
      then show ?thesis
        using read_loop_step [where rx = rx and k = k and parse = parse and parser = parser
            and parser' = parser' and i = i and bound = bound] lt False p True by simp
    next
      case nm: False
      show ?thesis
        using read_loop_message [where rx = rx and k = k and parse = parse and parser = parser
            and parser' = parser' and i = i and bound = bound and r = r] lt False p nm by simp
    qed
  qed
qed

lemma read_loop_exhausts:
  assumes "bound \<le> 255"
  shows "bound - unat i = n \<Longrightarrow>
    \<forall>j<n. pkt_header (rx (k + j)) \<noteq> 0 \<and>
           fst (parse (parser_after parse rx k j parser) (rx (k + j))) = NO_MESSAGE \<Longrightarrow>
    USBMIDI_read_loop bound parse rx i k parser =
      Some (NO_MESSAGE, k + n, parser_after parse rx k n parser)"
proof (induction n arbitrary: i k parser)
  case 0
  then have "\<not> unat i < bound" by simp
  then show ?case by (simp add: read_loop_done)
next
  case (Suc n)
  then have lt: "unat i < bound" by simp
  then have "unat i < 255" using assms by simp
  then have u: "unat (i + 1) = Suc (unat i)" by (rule unat_succ_u8)
  have b: "bound - unat (i + 1) = n"
    using Suc.prems(1) lt by (simp add: u)
  have first: "pkt_header (rx k) \<noteq> 0" "fst (parse parser (rx k)) = NO_MESSAGE"
    using Suc.prems(2) [rule_format, of 0] by simp_all
  then have p: "parse parser (rx k) = (NO_MESSAGE, snd (parse parser (rx k)))"
    by (simp add: prod_eq_iff)
  have rest: "\<forall>j<n. pkt_header (rx (Suc k + j)) \<noteq> 0 \<and>
      fst (parse (parser_after parse rx (Suc k) j (snd (parse parser (rx k)))) (rx (Suc k + j))) =
        NO_MESSAGE"
  proof (intro allI impI)
    fix j assume "j < n"
    then have "Suc j < Suc n" by simp
    from Suc.prems(2) [rule_format, OF this] show
      "pkt_header (rx (Suc k + j)) \<noteq> 0 \<and>
       fst (parse (parser_after parse rx (Suc k) j (snd (parse parser (rx k)))) (rx (Suc k + j))) =
         NO_MESSAGE"
      by simp
  qed
  have "USBMIDI_read_loop bound parse rx (i + 1) (Suc k) (snd (parse parser (rx k))) =
      Some (NO_MESSAGE, Suc k + n,
            parser_after parse rx (Suc k) n (snd (parse parser (rx k))))"
    by (rule Suc.IH [OF b rest])
  then show ?case
    using read_loop_step [where rx = rx and k = k and parse = parse and parser = parser
        and parser' = "snd (parse parser (rx k))" and i = i and bound = bound] lt first(1) p
    by simp
qed

text \<open>
  C8, amended. When \<open>(SYSEX_BUFFER_SIZE + 2) / 3\<close> fits the 8-bit loop counter (it is at
  most 255, that is \<open>SYSEX_BUFFER_SIZE\<close> is at most 765), every call of
  the USB \<open>read\<close> returns, having read at most that many packets; and when that many
  packets are pending and the parser completes no message on any of them, the call
  reads exactly that many and returns \<open>NO_MESSAGE\<close>, whatever is pending after them.
\<close>

theorem USBMIDI_read_bounded:
  assumes "(SYSEX_BUFFER_SIZE + 2) div 3 \<le> 255"
  shows "(\<exists>r k' parser'.
            USBMIDI_read SYSEX_BUFFER_SIZE parse rx k parser = Some (r, k', parser') \<and>
            k' - k \<le> (SYSEX_BUFFER_SIZE + 2) div 3) \<and>
         ((\<forall>j < (SYSEX_BUFFER_SIZE + 2) div 3.
              pkt_header (rx (k + j)) \<noteq> 0 \<and>
              fst (parse (parser_after parse rx k j parser) (rx (k + j))) = NO_MESSAGE) \<longrightarrow>
          USBMIDI_read SYSEX_BUFFER_SIZE parse rx k parser =
            Some (NO_MESSAGE, k + (SYSEX_BUFFER_SIZE + 2) div 3,
                  parser_after parse rx k ((SYSEX_BUFFER_SIZE + 2) div 3) parser))"
proof -
  define B where "B = (SYSEX_BUFFER_SIZE + 2) div 3"
  have z: "B - unat (0 :: u8) = B" by simp
  have le: "B \<le> 255" using assms by (simp add: B_def)
  obtain r k' parser' where
    run: "USBMIDI_read_loop B parse rx 0 k parser = Some (r, k', parser')" and k': "k' \<le> k + B"
    using read_loop_returns [OF le z, where parse = parse and rx = rx and k = k and parser = parser]
    by blast
  from k' have "k' - k \<le> B" by simp
  with run have one: "\<exists>r k' parser'.
      USBMIDI_read_loop B parse rx 0 k parser = Some (r, k', parser') \<and> k' - k \<le> B"
    by blast
  have two: "(\<forall>j < B.
              pkt_header (rx (k + j)) \<noteq> 0 \<and>
              fst (parse (parser_after parse rx k j parser) (rx (k + j))) = NO_MESSAGE) \<longrightarrow>
          USBMIDI_read_loop B parse rx 0 k parser =
            Some (NO_MESSAGE, k + B, parser_after parse rx k B parser)"
    using read_loop_exhausts [OF le z, where parse = parse and rx = rx and k = k
        and parser = parser]
    by blast
  show ?thesis
    unfolding USBMIDI_read_def B_def [symmetric] using one two by (rule conjI)
qed

theorem USBMIDI_read_bounded_witness:
  "(128 + 2) div 3 \<le> (255 :: nat) \<and>
   USBMIDI_read 128 (\<lambda>(p :: nat) pkt. (NO_MESSAGE, Suc p))
     (\<lambda>k. \<lparr>pkt_header = 0x04, byte1 = 1, byte2 = 2, byte3 = 3\<rparr>) 0 0 =
     Some (NO_MESSAGE, 43, 43)"
proof -
  have after: "parser_after (\<lambda>(p :: nat) pkt. (NO_MESSAGE, Suc p)) rx k j p = p + j"
    for rx k j p
    by (induction j arbitrary: k p) simp_all
  have h: "(128 + 2) div 3 \<le> (255 :: nat)" by simp
  show ?thesis
    using USBMIDI_read_bounded [OF h, where parse = "\<lambda>(p :: nat) pkt. (NO_MESSAGE, Suc p)"
        and rx = "\<lambda>k. \<lparr>pkt_header = 0x04, byte1 = 1, byte2 = 2, byte3 = 3\<rparr>"
        and k = 0 and parser = 0]
    by (simp add: after)
qed

lemma read_loop_wraps:
  assumes "256 \<le> bound"
  shows "\<forall>j<n. pkt_header (rx (k + j)) \<noteq> 0 \<and>
           fst (parse (parser_after parse rx k j parser) (rx (k + j))) = NO_MESSAGE \<Longrightarrow>
    USBMIDI_read_loop bound parse rx i k parser =
      USBMIDI_read_loop bound parse rx (i + of_nat n) (k + n) (parser_after parse rx k n parser)"
proof (induction n arbitrary: i k parser)
  case 0
  show ?case by simp
next
  case (Suc n)
  have lt: "unat i < bound"
    using unsigned_less [of i, where ?'a = nat] assms by simp
  have first: "pkt_header (rx k) \<noteq> 0" "fst (parse parser (rx k)) = NO_MESSAGE"
    using Suc.prems [rule_format, of 0] by simp_all
  then have p: "parse parser (rx k) = (NO_MESSAGE, snd (parse parser (rx k)))"
    by (simp add: prod_eq_iff)
  have rest: "\<forall>j<n. pkt_header (rx (Suc k + j)) \<noteq> 0 \<and>
      fst (parse (parser_after parse rx (Suc k) j (snd (parse parser (rx k)))) (rx (Suc k + j))) =
        NO_MESSAGE"
  proof (intro allI impI)
    fix j assume "j < n"
    then have "Suc j < Suc n" by simp
    from Suc.prems [rule_format, OF this] show
      "pkt_header (rx (Suc k + j)) \<noteq> 0 \<and>
       fst (parse (parser_after parse rx (Suc k) j (snd (parse parser (rx k)))) (rx (Suc k + j))) =
         NO_MESSAGE"
      by simp
  qed
  have "USBMIDI_read_loop bound parse rx i k parser =
        USBMIDI_read_loop bound parse rx (i + 1) (Suc k) (snd (parse parser (rx k)))"
    using read_loop_step [where rx = rx and k = k and parse = parse and parser = parser
        and parser' = "snd (parse parser (rx k))" and i = i and bound = bound] lt first(1) p
    by simp
  also have "\<dots> = USBMIDI_read_loop bound parse rx (i + 1 + of_nat n) (Suc k + n)
      (parser_after parse rx (Suc k) n (snd (parse parser (rx k))))"
    by (rule Suc.IH [OF rest])
  also have "i + 1 + of_nat n = i + of_nat (Suc n)" by simp
  also have "Suc k + n = k + Suc n" by simp
  finally show ?case by simp
qed

lemma read_loop_never_returns:
  "USBMIDI_read_loop 256 parse_nothing rx_always i k parser = None"
proof (rule ccontr)
  assume "USBMIDI_read_loop 256 parse_nothing rx_always i k parser \<noteq> None"
  then obtain y where y: "USBMIDI_read_loop 256 parse_nothing rx_always i k parser = Some y"
    by auto
  note ind = USBMIDI_read_loop.raw_induct [rotated, where P =
      "\<lambda>bound parse rx i k parser y.
         \<not> (bound = 256 \<and> parse = parse_nothing \<and> rx = rx_always)"]
  have "\<not> ((256 :: nat) = 256 \<and> parse_nothing = parse_nothing \<and> rx_always = rx_always)"
  proof (rule ind [OF y], goal_cases)
    case (1 loop bound parse rx i k parser y)
    show ?case
    proof
      assume c: "bound = 256 \<and> parse = parse_nothing \<and> rx = rx_always"
      have lt: "unat i < 256"
        using unsigned_less [of i, where ?'a = nat] by simp
      from "1"(2) c lt
      have "loop 256 parse_nothing rx_always (i + 1) (Suc k) parser = Some y"
        by (simp add: rx_always_def parse_nothing_def Let_def)
      from "1"(1) [OF this] show False by simp
    qed
  qed
  then show False by simp
qed

text \<open>
  Without that bound the claim fails: with \<open>SYSEX_BUFFER_SIZE = 766\<close> the bound is 256,
  which the counter never reaches. A call with 300 packets pending, none of which
  completes a message, reads all of them and the empty one after them; a call with a
  packet always pending does not return.
\<close>

theorem USBMIDI_read_bounded_counterexample:
  "(766 + 2) div 3 = (256 :: nat) \<and>
   USBMIDI_read 766 parse_nothing (rx_pending 300) 0 () = Some (NO_MESSAGE, 301, ()) \<and>
   USBMIDI_read 766 parse_nothing rx_always 0 () = None"
proof -
  have b: "(766 + 2) div 3 = (256 :: nat)" by simp
  have le: "(256 :: nat) \<le> 256" by simp
  have "USBMIDI_read_loop 256 parse_nothing (rx_pending 300) 0 0 () =
        USBMIDI_read_loop 256 parse_nothing (rx_pending 300) (0 + of_nat 300) (0 + 300)
          (parser_after parse_nothing (rx_pending 300) 0 300 ())"
    by (rule read_loop_wraps [OF le]) (simp add: rx_pending_def parse_nothing_def)
  also have "\<dots> = Some (NO_MESSAGE, 301, ())"
    using read_loop_empty [where bound = 256 and rx = "rx_pending 300" and k = 300
        and i = "of_nat 300" and parse = parse_nothing and parser = "()"]
      unsigned_less [of "of_nat 300 :: u8", where ?'a = nat]
    by (simp add: rx_pending_def)
  finally have one: "USBMIDI_read 766 parse_nothing (rx_pending 300) 0 () =
      Some (NO_MESSAGE, 301, ())"
    by (simp add: USBMIDI_read_def)
  have two: "USBMIDI_read 766 parse_nothing rx_always 0 () = None"
    by (simp add: USBMIDI_read_def read_loop_never_returns)
  show ?thesis using b one two by simp
qed

section \<open>Sending a channel message and reading it back\<close>

lemma unat_hi_nibble:
  fixes h :: u8
  shows "unat (h AND 0xF0) = unat h div 16 * 16"
proof -
  have "unat h div 16 < 16"
    using unsigned_less [of h, where ?'a = nat] by simp
  then have "unat h div 16 * 16 < 256" by simp
  then show ?thesis
    unfolding hi_nibble_shift
    by (simp add: push_bit_eq_mult drop_bit_eq_div unat_word_ariths unat_div)
qed

lemma valid_header_range:
  assumes "hasValidHeader msg"
  shows "NOTE_OFF \<le> header msg" and "header msg \<le> 0xEF" and "\<not> TIMING_CLOCK \<le> header msg"
proof -
  have "128 \<le> unat (header msg) div 16 * 16 \<and> unat (header msg) div 16 * 16 \<le> 224"
    using assms unat_hi_nibble [of "header msg"]
    by (simp add: hasValidHeader_def getMessageType_def MIDIMessageType_defs Let_def
        word_le_nat_alt)
  then have "128 \<le> unat (header msg) \<and> unat (header msg) \<le> 239" by arith
  then show "NOTE_OFF \<le> header msg" and "header msg \<le> 0xEF"
    and "\<not> TIMING_CLOCK \<le> header msg"
    by (simp_all add: MIDIMessageType_defs word_le_nat_alt)
qed

lemma data_byte_class:
  fixes d :: u8
  assumes "d \<le> 0x7F"
  shows "\<not> TIMING_CLOCK \<le> d" "\<not> NOTE_OFF \<le> d" "d \<noteq> TUNE_REQUEST" "d \<noteq> SYSEX_START"
    "d \<noteq> SYSEX_END"
  using assms by (auto simp add: MIDIMessageType_defs word_le_nat_alt)

lemma hasTwoDataBytes_header:
  "header a = header b \<Longrightarrow> hasTwoDataBytes a = hasTwoDataBytes b"
  by (simp add: hasTwoDataBytes_def getMessageType_def)

lemma SerialMIDI_parse_status:
  assumes "hasValidHeader msg"
  shows "SerialMIDI_parse unsent N p (header msg) =
    (NO_MESSAGE, p\<lparr>sp_state := ChannelMessage1, sp_running_status := Some (header msg),
                      sp_midimsg := (sp_midimsg p)\<lparr>header := header msg\<rparr>,
                      sp_sysexbuffer := []\<rparr>)"
  using valid_header_range [OF assms] by (simp add: SerialMIDI_parse_def)

lemma SerialMIDI_parse_data_byte:
  assumes "d \<le> 0x7F"
  shows "SerialMIDI_parse unsent N p d = SerialMIDI_parse_data unsent N p d"
  using data_byte_class [OF assms] assms by (simp add: SerialMIDI_parse_def)

lemma StreamMIDI_roundtrip_two:
  assumes "hasValidHeader msg" "data1 msg \<le> 0x7F" "data2 msg \<le> 0x7F" "hasTwoDataBytes msg"
  shows "\<exists>cn. StreamMIDI_roundtrip unsent N msg parser =
    (CHANNEL_MESSAGE, [],
     \<lparr>header = header msg, data1 = data1 msg, data2 = data2 msg, cable = cn\<rparr>)"
proof -
  have two: "hasTwoDataBytes ((sp_midimsg parser)\<lparr>header := header msg, data1 := d\<rparr>)" for d
    using assms(4) hasTwoDataBytes_header [of "(sp_midimsg parser)\<lparr>header := header msg, data1 := d\<rparr>" msg]
    by simp
  show ?thesis
    using assms(4)
    by (simp add: StreamMIDI_roundtrip_def StreamMIDI_send_def StreamMIDI_sendImpl2_def
        SerialMIDI_parse_status [OF assms(1)] SerialMIDI_parse_data_byte [OF assms(2)]
        SerialMIDI_parse_data_byte [OF assms(3)] SerialMIDI_parse_data_def two Let_def)
qed

lemma StreamMIDI_roundtrip_one:
  assumes "hasValidHeader msg" "data1 msg \<le> 0x7F" "\<not> hasTwoDataBytes msg"
  shows "\<exists>d2 cn. StreamMIDI_roundtrip unsent N msg parser =
    (CHANNEL_MESSAGE, [],
     \<lparr>header = header msg, data1 = data1 msg, data2 = d2, cable = cn\<rparr>)"
proof -
  have one: "\<not> hasTwoDataBytes ((sp_midimsg parser)\<lparr>header := header msg, data1 := d\<rparr>)" for d
    using assms(3) hasTwoDataBytes_header [of "(sp_midimsg parser)\<lparr>header := header msg, data1 := d\<rparr>" msg]
    by simp
  show ?thesis
    using assms(3)
    by (simp add: StreamMIDI_roundtrip_def StreamMIDI_send_def StreamMIDI_sendImpl1_def
        SerialMIDI_parse_status [OF assms(1)] SerialMIDI_parse_data_byte [OF assms(2)]
        SerialMIDI_parse_data_def one Let_def)
qed

lemma StreamMIDI_roundtrip_result:
  assumes "hasValidHeader msg" "data1 msg \<le> 0x7F" "data2 msg \<le> 0x7F"
  shows "\<exists>msg'. StreamMIDI_roundtrip unsent N msg parser = (CHANNEL_MESSAGE, [], msg') \<and>
    header msg' = header msg \<and> data1 msg' = data1 msg \<and>
    (hasTwoDataBytes msg \<longrightarrow> data2 msg' = data2 msg)"
proof (cases "hasTwoDataBytes msg")
  case True
  from StreamMIDI_roundtrip_two [OF assms True, of unsent N parser]
  show ?thesis by auto
next
  case False
  from StreamMIDI_roundtrip_one [OF assms(1,2) False, of unsent N parser]
  show ?thesis using False by auto
qed

lemma StreamMIDI_send_cable:
  "StreamMIDI_send (msg\<lparr>cable := cn\<rparr>) stream = StreamMIDI_send msg stream"
  by (simp add: StreamMIDI_send_def StreamMIDI_sendImpl2_def StreamMIDI_sendImpl1_def
      hasTwoDataBytes_def getMessageType_def)

lemma StreamMIDI_send_data2:
  "\<not> hasTwoDataBytes msg \<Longrightarrow>
   StreamMIDI_send (msg\<lparr>data2 := d\<rparr>) stream = StreamMIDI_send msg stream"
  by (simp add: StreamMIDI_send_def StreamMIDI_sendImpl2_def StreamMIDI_sendImpl1_def
      hasTwoDataBytes_def getMessageType_def)

lemma nibbles_join:
  fixes h :: u8
  shows "(h AND 0xF0) OR (h AND 0x0F) = h"
proof -
  have hi: "(0xF0 :: u8) = NOT (mask 4)" and lo: "(0x0F :: u8) = mask 4"
    by (simp_all add: mask_eq_exp_minus_1)
  show ?thesis
    unfolding hi lo by (rule bit_word_eqI) (auto simp add: bit_simps)
qed

lemma valid_header_cin:
  assumes "hasValidHeader msg"
  shows "0x8 \<le> drop_bit 4 (header msg AND 0xF0)" and "drop_bit 4 (header msg AND 0xF0) \<le> 0xE"
    and "take_bit 4 (drop_bit 4 (header msg AND 0xF0)) = drop_bit 4 (header msg AND 0xF0)"
    and "drop_bit 4 (drop_bit 4 (header msg AND 0xF0)) = 0"
proof -
  have t: "header msg AND 0xF0 \<in> {0x80, 0x90, 0xA0, 0xB0, 0xC0, 0xD0, 0xE0}"
    using assms message_type_valid_iff [of "header msg"]
    by (simp add: hasValidHeader_def getMessageType_def MIDIMessageType_defs Let_def)
  show "0x8 \<le> drop_bit 4 (header msg AND 0xF0)"
    using t by (elim insertE emptyE) (simp_all add: drop_bit_eq_div)
  show "drop_bit 4 (header msg AND 0xF0) \<le> 0xE"
    using t by (elim insertE emptyE) (simp_all add: drop_bit_eq_div)
  show "take_bit 4 (drop_bit 4 (header msg AND 0xF0)) = drop_bit 4 (header msg AND 0xF0)"
    by (rule take_bit_hi_nibble)
  show "drop_bit 4 (drop_bit 4 (header msg AND 0xF0)) = 0"
    using t by (elim insertE emptyE) (simp_all add: drop_bit_eq_div)
qed

lemma cable_of_header:
  fixes cn cin :: u8
  assumes "cn < 16" "drop_bit 4 cin = 0"
  shows "drop_bit 4 (push_bit 4 cn OR cin) = cn"
proof -
  have "unat cn < 16" using assms(1) by (simp add: word_less_nat_alt)
  then have "drop_bit 4 (push_bit 4 cn) = cn"
    by (simp add: drop_bit_eq_div push_bit_eq_mult word_eq_iff_unsigned [where ?'a = nat]
        unat_div unat_word_ariths)
  then show ?thesis using assms(2) by (simp add: drop_bit_or)
qed

lemma USBMIDI_send_sent:
  "sent (USBMIDI_send msg \<lparr>sent = [], flushed = 0\<rparr>) =
     [usb_packet (cable msg) (drop_bit 4 (header msg AND 0xF0)) (header msg) (data1 msg)
        (if hasTwoDataBytes msg then data2 msg else 0)]"
  by (simp add: USBMIDI_send_def USBMIDI_sendImpl1_def USBMIDI_sendImpl2_def flush_def
      writeUSBPacket_def nibbles_join)

lemma USBMIDI_parse_channel:
  assumes "hasValidHeader msg" "cable msg < 16"
  shows "USBMIDI_parse other p
           (usb_packet (cable msg) (drop_bit 4 (header msg AND 0xF0)) (header msg) d1 d2) =
         (CHANNEL_MESSAGE, \<lparr>header = header msg, data1 = d1, data2 = d2, cable = cable msg\<rparr>,
          snd p)"
  using valid_header_cin [OF assms(1)] cable_of_header [OF assms(2) valid_header_cin(4) [OF assms(1)]]
  by (simp add: USBMIDI_parse_def usb_packet_def low_nibble_of_header Let_def)

lemma usb_packet_header_nonzero:
  assumes "hasValidHeader msg"
  shows "pkt_header (usb_packet cn (drop_bit 4 (header msg AND 0xF0)) d0 d1 d2) \<noteq> 0"
proof
  assume z: "pkt_header (usb_packet cn (drop_bit 4 (header msg AND 0xF0)) d0 d1 d2) = 0"
  have "pkt_header (usb_packet cn (drop_bit 4 (header msg AND 0xF0)) d0 d1 d2) AND 0x0F =
        drop_bit 4 (header msg AND 0xF0)"
    using valid_header_cin(3) [OF assms] by (simp add: usb_packet_def low_nibble_of_header)
  then have "drop_bit 4 (header msg AND 0xF0) = 0" using z by simp
  then show False using valid_header_cin(1) [OF assms] by simp
qed

lemma USBMIDI_roundtrip_result:
  assumes "hasValidHeader msg" "cable msg < 16" "1 \<le> SYSEX_BUFFER_SIZE"
  shows "USBMIDI_roundtrip SYSEX_BUFFER_SIZE other msg parser =
    Some (CHANNEL_MESSAGE, 1,
          \<lparr>header = header msg, data1 = data1 msg,
           data2 = (if hasTwoDataBytes msg then data2 msg else 0), cable = cable msg\<rparr>)"
proof -
  let ?pkt = "usb_packet (cable msg) (drop_bit 4 (header msg AND 0xF0)) (header msg) (data1 msg)
        (if hasTwoDataBytes msg then data2 msg else 0)"
  let ?rx = "rx_of (sent (USBMIDI_send msg \<lparr>sent = [], flushed = 0\<rparr>))"
  have rx: "?rx 0 = ?pkt"
    by (simp add: rx_of_def USBMIDI_send_sent)
  have b: "unat (0 :: u8) < (SYSEX_BUFFER_SIZE + 2) div 3"
    using assms(3) by simp
  have nz: "pkt_header (?rx 0) \<noteq> 0"
    unfolding rx by (rule usb_packet_header_nonzero [OF assms(1)])
  have p: "USBMIDI_parse other parser (?rx 0) =
      (CHANNEL_MESSAGE,
       (\<lparr>header = header msg, data1 = data1 msg,
         data2 = (if hasTwoDataBytes msg then data2 msg else 0), cable = cable msg\<rparr>,
        snd parser))"
    unfolding rx by (rule USBMIDI_parse_channel [OF assms(1,2)])
  have "USBMIDI_read_loop ((SYSEX_BUFFER_SIZE + 2) div 3) (USBMIDI_parse other) ?rx 0 0 parser =
      Some (CHANNEL_MESSAGE, Suc 0,
       (\<lparr>header = header msg, data1 = data1 msg,
         data2 = (if hasTwoDataBytes msg then data2 msg else 0), cable = cable msg\<rparr>,
        snd parser))"
    using read_loop_message [where rx = ?rx and k = 0 and parse = "USBMIDI_parse other"
        and parser = parser and i = 0 and bound = "(SYSEX_BUFFER_SIZE + 2) div 3"
        and r = CHANNEL_MESSAGE, OF b nz p]
    by simp
  then show ?thesis
    by (simp add: USBMIDI_roundtrip_def USBMIDI_read_def)
qed

text \<open>
  C1, amended. For a message with a valid header and data bytes 0x00 to 0x7F:
  on the serial transport, sending it and reading the bytes back yields
  \<open>CHANNEL_MESSAGE\<close> and a message with its header and data1, and with its data2 when
  the type has two data bytes. The cable, and the data2 of a type with one data byte,
  are not on the wire: what is read back is the same whatever they are, and nothing is
  said of these two fields of the message read. On the USB transport, for a cable 0 to
  15 and a \<open>SYSEX_BUFFER_SIZE\<close> of at least 1, sending it and reading the packet back
  yields \<open>CHANNEL_MESSAGE\<close> and a message with its header, data1 and cable, and with
  its data2 when the type has two data bytes, 0 otherwise: the message sent itself when
  the type has two data bytes or data2 is 0.
\<close>

theorem ChannelMessage_roundtrip:
  assumes "hasValidHeader msg" and "data1 msg \<le> 0x7F" and "data2 msg \<le> 0x7F"
  shows
    "(\<exists>msg'. StreamMIDI_roundtrip unsent n msg parser = (CHANNEL_MESSAGE, [], msg') \<and>
        header msg' = header msg \<and> data1 msg' = data1 msg \<and>
        (hasTwoDataBytes msg \<longrightarrow> data2 msg' = data2 msg)) \<and>
     StreamMIDI_roundtrip unsent n (msg\<lparr>cable := cn\<rparr>) parser =
       StreamMIDI_roundtrip unsent n msg parser \<and>
     (\<not> hasTwoDataBytes msg \<longrightarrow>
        StreamMIDI_roundtrip unsent n (msg\<lparr>data2 := d\<rparr>) parser =
          StreamMIDI_roundtrip unsent n msg parser) \<and>
     (cable msg < 16 \<and> 1 \<le> SYSEX_BUFFER_SIZE \<longrightarrow>
        USBMIDI_roundtrip SYSEX_BUFFER_SIZE other msg usb_parser =
          Some (CHANNEL_MESSAGE, 1,
                \<lparr>header = header msg, data1 = data1 msg,
                 data2 = (if hasTwoDataBytes msg then data2 msg else 0), cable = cable msg\<rparr>) \<and>
        (hasTwoDataBytes msg \<or> data2 msg = 0 \<longrightarrow>
           USBMIDI_roundtrip SYSEX_BUFFER_SIZE other msg usb_parser =
             Some (CHANNEL_MESSAGE, 1, msg)))"
proof -
  have serial: "\<exists>msg'. StreamMIDI_roundtrip unsent n msg parser = (CHANNEL_MESSAGE, [], msg') \<and>
        header msg' = header msg \<and> data1 msg' = data1 msg \<and>
        (hasTwoDataBytes msg \<longrightarrow> data2 msg' = data2 msg)"
    by (rule StreamMIDI_roundtrip_result [OF assms])
  have cab: "StreamMIDI_roundtrip unsent n (msg\<lparr>cable := cn\<rparr>) parser =
       StreamMIDI_roundtrip unsent n msg parser"
    by (simp add: StreamMIDI_roundtrip_def StreamMIDI_send_cable)
  have dat: "StreamMIDI_roundtrip unsent n (msg\<lparr>data2 := d\<rparr>) parser =
          StreamMIDI_roundtrip unsent n msg parser" if "\<not> hasTwoDataBytes msg"
    using that by (simp add: StreamMIDI_roundtrip_def StreamMIDI_send_data2)
  have usb: "USBMIDI_roundtrip SYSEX_BUFFER_SIZE other msg usb_parser =
          Some (CHANNEL_MESSAGE, 1,
                \<lparr>header = header msg, data1 = data1 msg,
                 data2 = (if hasTwoDataBytes msg then data2 msg else 0), cable = cable msg\<rparr>)"
    if "cable msg < 16" "1 \<le> SYSEX_BUFFER_SIZE"
    by (rule USBMIDI_roundtrip_result [OF assms(1) that])
  have same: "\<lparr>header = header msg, data1 = data1 msg,
                 data2 = (if hasTwoDataBytes msg then data2 msg else 0), cable = cable msg\<rparr> = msg"
    if "hasTwoDataBytes msg \<or> data2 msg = 0"
    using that by auto
  show ?thesis
    using serial cab dat usb same by simp
qed

theorem ChannelMessage_roundtrip_witness:
  "hasValidHeader \<lparr>header = 0x93, data1 = 0x40, data2 = 0x7F, cable = 0\<rparr> \<and>
   (\<exists>cn. StreamMIDI_roundtrip SerialMIDI_unsent_kept 128
           \<lparr>header = 0x93, data1 = 0x40, data2 = 0x7F, cable = 0\<rparr> SerialMIDI_Parser_reset =
         (CHANNEL_MESSAGE, [], \<lparr>header = 0x93, data1 = 0x40, data2 = 0x7F, cable = cn\<rparr>)) \<and>
   USBMIDI_roundtrip 128 USBMIDI_ignore_other
     \<lparr>header = 0x93, data1 = 0x40, data2 = 0x7F, cable = 0\<rparr>
     (\<lparr>header = 0, data1 = 0, data2 = 0, cable = 0\<rparr>, ()) =
     Some (CHANNEL_MESSAGE, 1, \<lparr>header = 0x93, data1 = 0x40, data2 = 0x7F, cable = 0\<rparr>)"
proof -
  let ?m = "\<lparr>header = 0x93, data1 = 0x40, data2 = 0x7F, cable = 0\<rparr>"
  have v: "hasValidHeader ?m"
    by (simp add: hasValidHeader_def getMessageType_def MIDIMessageType_defs)
  have d: "data1 ?m \<le> 0x7F" "data2 ?m \<le> 0x7F" by simp_all
  have t: "hasTwoDataBytes ?m"
    by (simp add: hasTwoDataBytes_def getMessageType_def MIDIMessageType_defs)
  note inst = ChannelMessage_roundtrip [OF v d, where n = 128 and parser = SerialMIDI_Parser_reset
        and unsent = SerialMIDI_unsent_kept and SYSEX_BUFFER_SIZE = 128
        and other = USBMIDI_ignore_other
        and usb_parser = "(\<lparr>header = 0, data1 = 0, data2 = 0, cable = 0\<rparr>, ())"]
  from inst obtain msg' where
    r: "StreamMIDI_roundtrip SerialMIDI_unsent_kept 128 ?m SerialMIDI_Parser_reset =
          (CHANNEL_MESSAGE, [], msg')"
    and f: "header msg' = 0x93" "data1 msg' = 0x40" "data2 msg' = 0x7F"
    using t by auto
  have "msg' = \<lparr>header = 0x93, data1 = 0x40, data2 = 0x7F, cable = cable msg'\<rparr>"
    using f by (cases msg') simp
  with r have "\<exists>cn. StreamMIDI_roundtrip SerialMIDI_unsent_kept 128 ?m SerialMIDI_Parser_reset =
         (CHANNEL_MESSAGE, [], \<lparr>header = 0x93, data1 = 0x40, data2 = 0x7F, cable = cn\<rparr>)"
    by metis
  then show ?thesis
    using v t inst by simp
qed

text \<open>
  The claim as it was stated fails on what is sent, whatever the parser. On the serial
  transport a Note On sent on cable 1 puts the same three bytes on the wire as the same
  Note On sent on cable 0, which is another message: with a parser that keeps the cable
  it held, and with one that clears it, it is read back on cable 0. On the USB transport
  a Program Change sent with a data2 of 7 is read back with a data2 of 0.
\<close>

theorem ChannelMessage_roundtrip_counterexample:
  "StreamMIDI_send \<lparr>header = 0x90, data1 = 0x40, data2 = 0x7F, cable = 1\<rparr> [] =
     StreamMIDI_send \<lparr>header = 0x90, data1 = 0x40, data2 = 0x7F, cable = 0\<rparr> [] \<and>
   StreamMIDI_roundtrip SerialMIDI_unsent_kept 128
     \<lparr>header = 0x90, data1 = 0x40, data2 = 0x7F, cable = 1\<rparr> SerialMIDI_Parser_reset =
     (CHANNEL_MESSAGE, [], \<lparr>header = 0x90, data1 = 0x40, data2 = 0x7F, cable = 0\<rparr>) \<and>
   StreamMIDI_roundtrip SerialMIDI_unsent_cleared 128
     \<lparr>header = 0x90, data1 = 0x40, data2 = 0x7F, cable = 1\<rparr> SerialMIDI_Parser_reset =
     (CHANNEL_MESSAGE, [], \<lparr>header = 0x90, data1 = 0x40, data2 = 0x7F, cable = 0\<rparr>) \<and>
   \<not> ChannelMessage_eq \<lparr>header = 0x90, data1 = 0x40, data2 = 0x7F, cable = 0\<rparr>
         \<lparr>header = 0x90, data1 = 0x40, data2 = 0x7F, cable = 1\<rparr> \<and>
   USBMIDI_roundtrip 128 USBMIDI_ignore_other
     \<lparr>header = 0xC0, data1 = 5, data2 = 7, cable = 0\<rparr>
     (\<lparr>header = 0, data1 = 0, data2 = 0, cable = 0\<rparr>, ()) =
     Some (CHANNEL_MESSAGE, 1, \<lparr>header = 0xC0, data1 = 5, data2 = 0, cable = 0\<rparr>) \<and>
   \<not> ChannelMessage_eq \<lparr>header = 0xC0, data1 = 5, data2 = 0, cable = 0\<rparr>
         \<lparr>header = 0xC0, data1 = 5, data2 = 7, cable = 0\<rparr>"
proof -
  let ?a = "\<lparr>header = 0x90, data1 = 0x40, data2 = 0x7F, cable = 1\<rparr>"
  let ?c = "\<lparr>header = 0x90, data1 = 0x40, data2 = 0x7F, cable = 0\<rparr>"
  let ?b = "\<lparr>header = 0xC0, data1 = 5, data2 = 7, cable = 0\<rparr>"
  have va: "hasValidHeader ?a" and vb: "hasValidHeader ?b"
    by (simp_all add: hasValidHeader_def getMessageType_def MIDIMessageType_defs)
  have ta: "hasTwoDataBytes ?a" and ta0: "hasTwoDataBytes ?c" and tb: "\<not> hasTwoDataBytes ?b"
    by (simp_all add: hasTwoDataBytes_def getMessageType_def MIDIMessageType_defs)
  have two: "hasTwoDataBytes (m\<lparr>header := 0x90, data1 := d\<rparr>)" for m d
    by (simp add: hasTwoDataBytes_def getMessageType_def MIDIMessageType_defs)
  have wire: "StreamMIDI_send ?a [] = StreamMIDI_send ?c []"
    using ta ta0 by (simp add: StreamMIDI_send_def StreamMIDI_sendImpl2_def)
  have d: "(0x40 :: u8) \<le> 0x7F" "(0x7F :: u8) \<le> 0x7F" by simp_all
  have serial: "StreamMIDI_roundtrip unsent 128 ?a SerialMIDI_Parser_reset =
      (CHANNEL_MESSAGE, [], ?c)"
    if "unsent = SerialMIDI_unsent_kept \<or> unsent = SerialMIDI_unsent_cleared" for unsent
    using that ta SerialMIDI_parse_status [OF va]
    by (auto simp add: StreamMIDI_roundtrip_def StreamMIDI_send_def StreamMIDI_sendImpl2_def
        SerialMIDI_parse_data_byte [OF d(1)] SerialMIDI_parse_data_byte [OF d(2)]
        SerialMIDI_parse_data_def two Let_def SerialMIDI_Parser_reset_def
        SerialMIDI_unsent_kept_def SerialMIDI_unsent_cleared_def
        hasTwoDataBytes_def getMessageType_def MIDIMessageType_defs)
  have usb: "USBMIDI_roundtrip 128 USBMIDI_ignore_other ?b
      (\<lparr>header = 0, data1 = 0, data2 = 0, cable = 0\<rparr>, ()) =
      Some (CHANNEL_MESSAGE, 1, \<lparr>header = 0xC0, data1 = 5, data2 = 0, cable = 0\<rparr>)"
    using USBMIDI_roundtrip_result [OF vb, where SYSEX_BUFFER_SIZE = 128
        and other = USBMIDI_ignore_other
        and parser = "(\<lparr>header = 0, data1 = 0, data2 = 0, cable = 0\<rparr>, ())"] tb
    by simp
  show ?thesis
    using wire serial [of SerialMIDI_unsent_kept] serial [of SerialMIDI_unsent_cleared] usb
    by (simp add: ChannelMessage_eq_def)
qed

end
